theory Spec2Isabelle
  imports Complex_Main
begin

section \<open>Metropolis sampling for two Bernoulli parameters (08_BernTwoMetropolis.py)\<close>

text \<open>
  The script is embedded over the real numbers: a finite float64 value is read as the real
  number it stands for, and rounding, overflow and underflow are left out. What IEEE
  arithmetic adds to the reals where the script can reach it (a division by zero gives an
  infinity or a NaN under NumPy and raises under plain Python) is written out below.

  The global generator \<open>np.random\<close> is an explicit state of type \<open>'g\<close> threaded through
  the loop. Its two draws are parameters of the model:
  \<open>mvn\<close> stands for \<open>np.random.multivariate_normal(mean=np.zeros(n_dim), cov=covar_mat)\<close> and
  \<open>rand\<close> for \<open>np.random.rand()\<close>; each takes the generator state and returns the value
  drawn together with the next state.
\<close>

subsection \<open>Values\<close>

text \<open>A parameter vector \<open>theta = [theta1, theta2]\<close>: a NumPy array of shape (2,).\<close>

type_synonym vec = "real \<times> real"

definition vadd :: "vec \<Rightarrow> vec \<Rightarrow> vec" where
  "vadd p q = (fst p + fst q, snd p + snd q)"

datatype error = ZeroDivisionError | IndexError | ValueError

text \<open>
  \<open>target_rel_prob\<close> returns a \<open>numpy.float64\<close> from its first branch and the Python
  float literal \<open>0.0\<close> from its second; the two types divide differently.
\<close>

datatype pynum = PyFloat real | NpFloat real

fun val :: "pynum \<Rightarrow> real" where
  "val (PyFloat x) = x"
| "val (NpFloat x) = x"

text \<open>A float64 as NumPy arithmetic can produce it: a finite value, an infinity or NaN.\<close>

datatype npfloat = Fin real | PInf | NInf | NaN

definition np_divide :: "real \<Rightarrow> real \<Rightarrow> npfloat" where
  "np_divide a b =
     (if b \<noteq> 0 then Fin (a / b)
      else if 0 < a then PInf
      else if a < 0 then NInf
      else NaN)"

text \<open>
  The operator \<open>/\<close> (true division, from \<open>__future__\<close>): between two Python floats a zero
  divisor raises; as soon as one operand is a \<open>numpy.float64\<close> NumPy's division runs
  (\<open>numpy.float64\<close> is a subclass of \<open>float\<close> with its own reflected division).
\<close>

fun truediv :: "pynum \<Rightarrow> pynum \<Rightarrow> error + npfloat" where
  "truediv (PyFloat a) (PyFloat b) =
     (if b = 0 then Inl ZeroDivisionError else Inr (Fin (a / b)))"
| "truediv x y = Inr (np_divide (val x) (val y))"

text \<open>\<open>np.minimum(c, v)\<close> for a finite \<open>c\<close>; a NaN operand gives NaN.\<close>

fun np_minimum :: "real \<Rightarrow> npfloat \<Rightarrow> npfloat" where
  "np_minimum c (Fin r) = Fin (min c r)"
| "np_minimum c PInf = Fin c"
| "np_minimum c NInf = NInf"
| "np_minimum c NaN = NaN"

text \<open>\<open>u < v\<close> for a finite \<open>u\<close>; every comparison with NaN is false.\<close>

fun less_np :: "real \<Rightarrow> npfloat \<Rightarrow> bool" where
  "less_np u (Fin r) = (u < r)"
| "less_np u PInf = True"
| "less_np u NInf = False"
| "less_np u NaN = False"

subsection \<open>Likelihood, prior and target\<close>

definition likelihood :: "vec \<Rightarrow> real" where
  "likelihood theta =
     (let z1 = 5; N1 = 7; z2 = 2; N2 = (7::nat)
      in fst theta ^ z1 * (1 - fst theta) ^ (N1 - z1)
         * snd theta ^ z2 * (1 - snd theta) ^ (N2 - z2))"

text \<open>
  \<open>scipy.stats.beta.pdf(x, a, b)\<close> at the integer shape parameters the prior uses:
  \<open>x^(a-1) (1-x)^(b-1) / B(a, b)\<close> on \<open>[0, 1]\<close> and 0 elsewhere, where
  \<open>1 / B(a, b) = (a+b-1)! / ((a-1)! (b-1)!)\<close>.
\<close>

definition beta_pdf :: "real \<Rightarrow> nat \<Rightarrow> nat \<Rightarrow> real" where
  "beta_pdf x a b =
     (if 0 \<le> x \<and> x \<le> 1
      then x ^ (a - 1) * (1 - x) ^ (b - 1) * fact (a + b - 1) / (fact (a - 1) * fact (b - 1))
      else 0)"

definition prior :: "vec \<Rightarrow> real" where
  "prior theta =
     (let a1 = 3; b1 = 3; a2 = 3; b2 = 3
      in beta_pdf (fst theta) a1 b1 * beta_pdf (snd theta) a2 b2)"

definition in_domain :: "vec \<Rightarrow> bool" where
  "in_domain theta \<longleftrightarrow> (0 \<le> fst theta \<and> 0 \<le> snd theta) \<and> (fst theta \<le> 1 \<and> snd theta \<le> 1)"

definition target_rel_prob :: "vec \<Rightarrow> pynum" where
  "target_rel_prob theta =
     (if in_domain theta then NpFloat (likelihood theta * prior theta) else PyFloat 0)"

subsection \<open>The random walk\<close>

record 'g sampler =
  trajectory :: "vec list"
  n_accepted :: int
  n_rejected :: int
  rng :: 'g

text \<open>\<open>burn_in = np.ceil(.1 * traj_length).astype(int)\<close>, with \<open>.1\<close> read as one tenth.\<close>

definition burn_in :: "nat \<Rightarrow> nat" where
  "burn_in traj_length = nat \<lceil>(1 / 10) * real traj_length\<rceil>"

text \<open>
  The body of the \<open>for\<close> loop at index \<open>step\<close>. The proposal is drawn first; the uniform
  value is drawn after the ratio has been computed, so a division that raises leaves the
  loop before \<open>np.random.rand()\<close> is called. \<open>step\<close> and \<open>step + 1\<close> are below the
  length of the trajectory wherever the loop calls the body.
\<close>

definition metropolis_step ::
  "('g \<Rightarrow> vec \<times> 'g) \<Rightarrow> ('g \<Rightarrow> real \<times> 'g) \<Rightarrow> nat \<Rightarrow> nat \<Rightarrow> 'g sampler \<Rightarrow> error + 'g sampler" where
  "metropolis_step mvn rand b step st =
     (let current_position = trajectory st ! step;
          (proposed_jump, g1) = mvn (rng st)
      in case truediv (target_rel_prob (vadd current_position proposed_jump))
                      (target_rel_prob current_position) of
           Inl e \<Rightarrow> Inl e
         | Inr q \<Rightarrow>
             (let prob_accept = np_minimum 1 q;
                  (u, g2) = rand g1
              in if less_np u prob_accept
                 then Inr (st\<lparr>trajectory := (trajectory st)[step + 1 := vadd current_position proposed_jump],
                             n_accepted := (if step > b then n_accepted st + 1 else n_accepted st),
                             rng := g2\<rparr>)
                 else Inr (st\<lparr>trajectory := (trajectory st)[step + 1 := current_position],
                             n_rejected := (if step > b then n_rejected st + 1 else n_rejected st),
                             rng := g2\<rparr>)))"

text \<open>The loop over a list of step indices; an exception ends it.\<close>

fun run_steps ::
  "('g \<Rightarrow> vec \<times> 'g) \<Rightarrow> ('g \<Rightarrow> real \<times> 'g) \<Rightarrow> nat \<Rightarrow> nat list \<Rightarrow> 'g sampler \<Rightarrow> error + 'g sampler" where
  "run_steps mvn rand b [] st = Inr st"
| "run_steps mvn rand b (step # steps) st =
     (case metropolis_step mvn rand b step st of
        Inl e \<Rightarrow> Inl e
      | Inr st' \<Rightarrow> run_steps mvn rand b steps st')"

text \<open>
  The state before the loop: \<open>np.zeros((traj_length, 2))\<close> with row 0 set to the start
  values, both counters 0, the generator as \<open>np.random.seed\<close> left it.
\<close>

definition init_sampler :: "nat \<Rightarrow> 'g \<Rightarrow> 'g sampler" where
  "init_sampler traj_length g =
     \<lparr>trajectory = (replicate traj_length (0, 0))[0 := (1 / 2, 1 / 2)],
      n_accepted = 0, n_rejected = 0, rng = g\<rparr>"

text \<open>
  The script up to the end of the loop, for a trajectory length \<open>traj_length\<close> (5000 in
  the script) and the seeded generator state \<open>g\<close>. Writing row 0 of an array without
  rows raises IndexError; \<open>range(traj_length - 1)\<close> is empty for a length of 1.
\<close>

definition metropolis ::
  "('g \<Rightarrow> vec \<times> 'g) \<Rightarrow> ('g \<Rightarrow> real \<times> 'g) \<Rightarrow> nat \<Rightarrow> 'g \<Rightarrow> error + 'g sampler" where
  "metropolis mvn rand traj_length g =
     (if traj_length = 0 then Inl IndexError
      else run_steps mvn rand (burn_in traj_length) [0..<traj_length - 1]
             (init_sampler traj_length g))"


subsection \<open>The generator along a run\<close>

text \<open>
  \<open>np.random.rand()\<close> returns a value of the half-open interval \<open>[0, 1)\<close>; this is all
  the properties below ask of the generator.
\<close>

definition rand_ok :: "('g \<Rightarrow> real \<times> 'g) \<Rightarrow> bool" where
  "rand_ok rand \<longleftrightarrow> (\<forall>g. 0 \<le> fst (rand g) \<and> fst (rand g) < 1)"

text \<open>
  The generator state before step \<open>k\<close> of a run that raises nothing: each step takes the
  proposal from the state it finds and the uniform value from the state the proposal left.
\<close>

primrec gen_at :: "('g \<Rightarrow> vec \<times> 'g) \<Rightarrow> ('g \<Rightarrow> real \<times> 'g) \<Rightarrow> 'g \<Rightarrow> nat \<Rightarrow> 'g" where
  "gen_at mvn rand g 0 = g"
| "gen_at mvn rand g (Suc k) = snd (rand (snd (mvn (gen_at mvn rand g k))))"

definition jump_at :: "('g \<Rightarrow> vec \<times> 'g) \<Rightarrow> ('g \<Rightarrow> real \<times> 'g) \<Rightarrow> 'g \<Rightarrow> nat \<Rightarrow> vec" where
  "jump_at mvn rand g k = fst (mvn (gen_at mvn rand g k))"

definition u_at :: "('g \<Rightarrow> vec \<times> 'g) \<Rightarrow> ('g \<Rightarrow> real \<times> 'g) \<Rightarrow> 'g \<Rightarrow> nat \<Rightarrow> real" where
  "u_at mvn rand g k = fst (rand (snd (mvn (gen_at mvn rand g k))))"

text \<open>The open unit square, where likelihood and prior are both positive.\<close>

definition interior :: "vec \<Rightarrow> bool" where
  "interior theta \<longleftrightarrow> 0 < fst theta \<and> fst theta < 1 \<and> 0 < snd theta \<and> snd theta < 1"

text \<open>The Metropolis rule on real numbers, for a current position of positive density.\<close>

definition next_position :: "vec \<Rightarrow> vec \<Rightarrow> real \<Rightarrow> vec" where
  "next_position cur jump u =
     (if u < min 1 (val (target_rel_prob (vadd cur jump)) / val (target_rel_prob cur))
      then vadd cur jump else cur)"

text \<open>What holds of the sampler state once the steps \<open>0, ..., m - 1\<close> have run.\<close>

definition walk_inv ::
  "('g \<Rightarrow> vec \<times> 'g) \<Rightarrow> ('g \<Rightarrow> real \<times> 'g) \<Rightarrow> nat \<Rightarrow> nat \<Rightarrow> 'g \<Rightarrow> nat \<Rightarrow> 'g sampler \<Rightarrow> bool" where
  "walk_inv mvn rand b n g m st \<longleftrightarrow>
     length (trajectory st) = n \<and>
     rng st = gen_at mvn rand g m \<and>
     trajectory st ! 0 = (1 / 2, 1 / 2) \<and>
     (\<forall>i\<le>m. interior (trajectory st ! i)) \<and>
     (\<forall>k<m. trajectory st ! Suc k =
        next_position (trajectory st ! k) (jump_at mvn rand g k) (u_at mvn rand g k)) \<and>
     0 \<le> n_accepted st \<and> 0 \<le> n_rejected st \<and>
     n_accepted st + n_rejected st = max 0 (int m - 1 - int b)"

text \<open>Two runs agree on what the script reads from the sampler: trajectory and counters.\<close>

fun same_output :: "error + 'g sampler \<Rightarrow> error + 'h sampler \<Rightarrow> bool" where
  "same_output (Inl e) (Inl e') = (e = e')"
| "same_output (Inr s) (Inr s') =
     (trajectory s = trajectory s' \<and> n_accepted s = n_accepted s' \<and> n_rejected s = n_rejected s')"
| "same_output _ _ = False"

subsection \<open>Inference from the sample\<close>

text \<open>\<open>accepted_traj = trajectory[burn_in:]\<close>: a slice never raises.\<close>

definition accepted_traj :: "nat \<Rightarrow> vec list \<Rightarrow> vec list" where
  "accepted_traj b traj = drop b traj"

text \<open>
  \<open>np.mean\<close> and \<open>np.std\<close> (with the default \<open>ddof = 0\<close>) of a one-dimensional array, as
  NumPy documents them: \<open>sum(x) / N\<close> and \<open>sqrt(mean(abs(x - x.mean())**2))\<close>. The
  definitions agree with NumPy on non-empty arrays; on the empty array NumPy gives NaN and
  the quotient below is 0, so every statement that reads them is about a non-empty array.
\<close>

definition np_mean :: "real list \<Rightarrow> real" where
  "np_mean xs = sum_list xs / real (length xs)"

definition np_std :: "real list \<Rightarrow> real" where
  "np_std xs = sqrt (np_mean (map (\<lambda>x. \<bar>x - np_mean xs\<bar> ^ 2) xs))"

text \<open>With \<open>axis=0\<close> both work column by column.\<close>

definition mean_traj :: "vec list \<Rightarrow> vec" where
  "mean_traj pts = (np_mean (map fst pts), np_mean (map snd pts))"

definition stdTraj :: "vec list \<Rightarrow> vec" where
  "stdTraj pts = (np_std (map fst pts), np_std (map snd pts))"

text \<open>
  An array allocated with \<open>np.zeros(n)\<close> and filled by a loop \<open>for idx in range(n): arr[idx] = f(idx)\<close>.
\<close>

definition fill :: "nat \<Rightarrow> (nat \<Rightarrow> real) \<Rightarrow> real list" where
  "fill n f = fold (\<lambda>idx arr. arr[idx := f idx]) [0..<n] (replicate n 0)"

text \<open>
  The evidence \<open>p(D)\<close>. \<open>pdf x a b\<close> stands for \<open>scipy.stats.beta.pdf(x, a, b)\<close> at real
  shape parameters, which needs the Gamma function; it is a parameter here. The script
  divides by the squared standard deviations, by \<open>likelihood * prior\<close> and by the mean of
  \<open>wtd_evid\<close>. The definitions agree with the script where none of these divisors is 0
  and the sample is not empty; where one is 0 NumPy gives an infinity or a NaN and the
  quotient below is 0, so every statement that reads them has these divisors non-zero.
\<close>

definition beta_a :: "vec list \<Rightarrow> vec" where
  "beta_a pts =
     (let m = mean_traj pts; s = stdTraj pts
      in (fst m * ((fst m * (1 - fst m) / fst s ^ 2) - 1),
          snd m * ((snd m * (1 - snd m) / snd s ^ 2) - 1)))"

definition beta_b :: "vec list \<Rightarrow> vec" where
  "beta_b pts =
     (let m = mean_traj pts; s = stdTraj pts
      in ((1 - fst m) * ((fst m * (1 - fst m) / fst s ^ 2) - 1),
          (1 - snd m) * ((snd m * (1 - snd m) / snd s ^ 2) - 1)))"

definition wtd_evid :: "(real \<Rightarrow> real \<Rightarrow> real \<Rightarrow> real) \<Rightarrow> vec list \<Rightarrow> real list" where
  "wtd_evid pdf pts =
     (let a = beta_a pts; b = beta_b pts
      in fill (length pts)
           (\<lambda>idx. pdf (fst (pts ! idx)) (fst a) (fst b) * pdf (snd (pts ! idx)) (snd a) (snd b)
                   / (likelihood (pts ! idx) * prior (pts ! idx))))"

definition p_data :: "(real \<Rightarrow> real \<Rightarrow> real \<Rightarrow> real) \<Rightarrow> vec list \<Rightarrow> real" where
  "p_data pdf pts = 1 / np_mean (wtd_evid pdf pts)"

text \<open>
  The evidence estimate in the words of the specification: moment-matched shape
  parameters per dimension from mean \<open>m\<close> and standard deviation \<open>s\<close>, the weight of a
  point the product of the Beta densities of its coordinates divided by the target density
  at the point, the estimate 1 over the arithmetic mean of the weights.
\<close>

definition moment_a :: "real \<Rightarrow> real \<Rightarrow> real" where
  "moment_a m s = m * ((m * (1 - m) / s\<^sup>2) - 1)"

definition moment_b :: "real \<Rightarrow> real \<Rightarrow> real" where
  "moment_b m s = (1 - m) * ((m * (1 - m) / s\<^sup>2) - 1)"

definition spec_weight ::
  "(real \<Rightarrow> real \<Rightarrow> real \<Rightarrow> real) \<Rightarrow> (vec \<Rightarrow> real) \<Rightarrow> vec list \<Rightarrow> vec \<Rightarrow> real" where
  "spec_weight pdf target_density pts p =
     pdf (fst p) (moment_a (fst (mean_traj pts)) (fst (stdTraj pts)))
                 (moment_b (fst (mean_traj pts)) (fst (stdTraj pts)))
     * pdf (snd p) (moment_a (snd (mean_traj pts)) (snd (stdTraj pts)))
                   (moment_b (snd (mean_traj pts)) (snd (stdTraj pts)))
     / target_density p"

definition spec_evidence ::
  "(real \<Rightarrow> real \<Rightarrow> real \<Rightarrow> real) \<Rightarrow> (vec \<Rightarrow> real) \<Rightarrow> vec list \<Rightarrow> real" where
  "spec_evidence pdf target_density pts =
     1 / (sum_list (map (spec_weight pdf target_density pts) pts) / real (length pts))"

text \<open>
  \<open>np.percentile(a, q)\<close> with the default linear interpolation: \<open>q\<close> outside \<open>[0, 100]\<close>
  raises ValueError; otherwise the value at the position \<open>q / 100 * (N - 1)\<close> of the sorted
  array, interpolated between its two neighbours. For an empty array NumPy returns no number
  (an exception or NaN, depending on the version); the model raises.
\<close>

definition lerp_at :: "real list \<Rightarrow> real \<Rightarrow> real" where
  "lerp_at s pos =
     (let lo = nat \<lfloor>pos\<rfloor>;
          hi = min (lo + 1) (length s - 1);
          g = pos - real lo
      in s ! lo + g * (s ! hi - s ! lo))"

definition np_percentile :: "real list \<Rightarrow> real \<Rightarrow> error + real" where
  "np_percentile a q =
     (if q < 0 \<or> 100 < q then Inl ValueError
      else if a = [] then Inl ValueError
      else Inr (lerp_at (sort a) (q / 100 * real (length a - 1))))"

definition post_prob :: "vec list \<Rightarrow> real list" where
  "post_prob pts = fill (length pts) (\<lambda>ptIdx. val (target_rel_prob (pts ! ptIdx)))"

definition waterline :: "real \<Rightarrow> vec list \<Rightarrow> error + real" where
  "waterline credmass pts = np_percentile (post_prob pts) credmass"

text \<open>Indexing the rows of an array by a boolean mask of the same length.\<close>

definition mask_rows :: "'a list \<Rightarrow> bool list \<Rightarrow> 'a list" where
  "mask_rows rows flags = map fst (filter snd (zip rows flags))"

definition HDI_points :: "real \<Rightarrow> vec list \<Rightarrow> error + vec list" where
  "HDI_points credmass pts =
     (case waterline credmass pts of
        Inl e \<Rightarrow> Inl e
      | Inr w \<Rightarrow> Inr (mask_rows pts (map (\<lambda>v. w < v) (post_prob pts))))"

text \<open>Three sample points for examples.\<close>

definition demo_pts :: "vec list" where
  "demo_pts = [(1 / 2, 1 / 2), (3 / 5, 2 / 5), (1 / 2, 3 / 10)]"

text \<open>A stand-in for the Beta density in examples: the uniform density on \<open>[0, 1]\<close>.\<close>

definition demo_pdf :: "real \<Rightarrow> real \<Rightarrow> real \<Rightarrow> real" where
  "demo_pdf x a b = (if 0 \<le> x \<and> x \<le> 1 then 1 else 0)"

subsection \<open>A small generator for examples\<close>

text \<open>
  A counter as generator state: the proposals alternate between two jumps, the uniform
  values are \<open>1/2, 1/3, 1/4, ...\<close>.
\<close>

definition demo_mvn :: "nat \<Rightarrow> vec \<times> nat" where
  "demo_mvn g = ((if even (g div 2) then (1 / 10, - 1 / 10) else (- 3 / 5, 1 / 5)), Suc g)"

definition demo_rand :: "nat \<Rightarrow> real \<times> nat" where
  "demo_rand g = (1 / (real g + 2), Suc g)"

text \<open>The same draws from a generator with another type of state.\<close>

definition demo2_mvn :: "int \<Rightarrow> vec \<times> int" where
  "demo2_mvn g = (fst (demo_mvn (nat g)), g + 1)"

definition demo2_rand :: "int \<Rightarrow> real \<times> int" where
  "demo2_rand g = (fst (demo_rand (nat g)), g + 1)"

section \<open>Properties of the sampler\<close>

lemma likelihood_prior_eq:
  "in_domain theta \<Longrightarrow>
   likelihood theta * prior theta =
     900 * (fst theta ^ 7 * (1 - fst theta) ^ 4 * (snd theta ^ 4 * (1 - snd theta) ^ 7))"
  by (simp add: likelihood_def prior_def beta_pdf_def in_domain_def fact_numeral power2_eq_square power_numeral_reduce)

lemma target_nonneg: "0 \<le> val (target_rel_prob theta)"
  by (auto simp: target_rel_prob_def likelihood_prior_eq in_domain_def)

lemma target_zero_iff: "val (target_rel_prob theta) = 0 \<longleftrightarrow> \<not> interior theta"
  by (auto simp: target_rel_prob_def likelihood_prior_eq interior_def in_domain_def)

lemma target_pos_iff: "0 < val (target_rel_prob theta) \<longleftrightarrow> interior theta"
  using target_nonneg[of theta] target_zero_iff[of theta] by linarith

lemma target_outside: "\<not> in_domain theta \<Longrightarrow> target_rel_prob theta = PyFloat 0"
  by (simp add: target_rel_prob_def)

lemma interior_in_domain: "interior theta \<Longrightarrow> in_domain theta"
  by (simp add: interior_def in_domain_def)

lemma truediv_pos:
  assumes "interior cur"
  shows "truediv (target_rel_prob p) (target_rel_prob cur)
         = Inr (Fin (val (target_rel_prob p) / val (target_rel_prob cur)))"
proof -
  from assms have d: "0 < val (target_rel_prob cur)" by (simp add: target_pos_iff)
  from assms have "in_domain cur" by (rule interior_in_domain)
  then obtain c where c: "target_rel_prob cur = NpFloat c" by (simp add: target_rel_prob_def)
  with d have "c \<noteq> 0" by simp
  then show ?thesis using c by (cases "target_rel_prob p") (simp_all add: np_divide_def)
qed

lemma metropolis_step_interior:
  assumes "interior (trajectory st ! step)"
  shows "metropolis_step mvn rand b step st =
     (let cur = trajectory st ! step;
          jump = fst (mvn (rng st));
          u = fst (rand (snd (mvn (rng st))));
          g2 = snd (rand (snd (mvn (rng st))));
          accept = (u < min 1 (val (target_rel_prob (vadd cur jump)) / val (target_rel_prob cur)))
      in Inr (st\<lparr>trajectory := (trajectory st)[step + 1 := next_position cur jump u],
                n_accepted := (if accept \<and> step > b then n_accepted st + 1 else n_accepted st),
                n_rejected := (if \<not> accept \<and> step > b then n_rejected st + 1 else n_rejected st),
                rng := g2\<rparr>))"
  using truediv_pos[OF assms]
  by (simp add: metropolis_step_def Let_def split_beta next_position_def)

lemma next_position_interior:
  assumes "interior cur" "0 \<le> u"
  shows "interior (next_position cur jump u)"
proof (cases "u < min 1 (val (target_rel_prob (vadd cur jump)) / val (target_rel_prob cur))")
  case True
  with assms(2) have "0 < val (target_rel_prob (vadd cur jump)) / val (target_rel_prob cur)" by simp
  moreover from assms(1) have "0 < val (target_rel_prob cur)" by (simp add: target_pos_iff)
  ultimately have "0 < val (target_rel_prob (vadd cur jump))" by (simp add: zero_less_divide_iff)
  then have "interior (vadd cur jump)" by (simp add: target_pos_iff)
  moreover have "next_position cur jump u = vadd cur jump"
    unfolding next_position_def using True by (rule if_P)
  ultimately show ?thesis by simp
next
  case False
  then show ?thesis using assms(1) by (auto simp: next_position_def)
qed

lemma run_steps_append:
  "run_steps mvn rand b (xs @ ys) st =
     (case run_steps mvn rand b xs st of Inl e \<Rightarrow> Inl e | Inr st' \<Rightarrow> run_steps mvn rand b ys st')"
  by (induction xs arbitrary: st) (auto split: sum.splits)


lemma interior_start: "interior (1 / 2, 1 / 2)"
  by (simp add: interior_def)

lemma walk_inv_init: "0 < n \<Longrightarrow> walk_inv mvn rand b n g 0 (init_sampler n g)"
  by (simp add: walk_inv_def init_sampler_def interior_start)

lemma walk_inv_step:
  assumes ok: "rand_ok rand" and inv: "walk_inv mvn rand b n g m st" and m: "Suc m < n"
  shows "\<exists>st'. metropolis_step mvn rand b m st = Inr st' \<and> walk_inv mvn rand b n g (Suc m) st'"
proof -
  let ?cur = "trajectory st ! m"
  let ?jump = "jump_at mvn rand g m"
  let ?u = "u_at mvn rand g m"
  let ?acc = "?u < min 1 (val (target_rel_prob (vadd ?cur ?jump)) / val (target_rel_prob ?cur))"
  define st' where "st' = st\<lparr>trajectory := (trajectory st)[m + 1 := next_position ?cur ?jump ?u],
                n_accepted := (if ?acc \<and> m > b then n_accepted st + 1 else n_accepted st),
                n_rejected := (if \<not> ?acc \<and> m > b then n_rejected st + 1 else n_rejected st),
                rng := gen_at mvn rand g (Suc m)\<rparr>"
  from inv have len: "length (trajectory st) = n" and g: "rng st = gen_at mvn rand g m"
    and t0: "trajectory st ! 0 = (1 / 2, 1 / 2)"
    and int: "\<And>i. i \<le> m \<Longrightarrow> interior (trajectory st ! i)"
    and rel: "\<And>k. k < m \<Longrightarrow> trajectory st ! Suc k =
        next_position (trajectory st ! k) (jump_at mvn rand g k) (u_at mvn rand g k)"
    and na: "0 \<le> n_accepted st" and nr: "0 \<le> n_rejected st"
    and cnt: "n_accepted st + n_rejected st = max 0 (int m - 1 - int b)"
    by (simp_all add: walk_inv_def)
  have cur: "interior ?cur" by (rule int) simp
  have step: "metropolis_step mvn rand b m st = Inr st'"
    unfolding metropolis_step_interior[OF cur] st'_def
    by (simp add: Let_def g jump_at_def u_at_def)
  have u0: "0 \<le> ?u" using ok by (simp add: rand_ok_def u_at_def)
  have new: "interior (next_position ?cur ?jump ?u)"
    by (rule next_position_interior[OF cur u0])
  have tr: "trajectory st' = (trajectory st)[Suc m := next_position ?cur ?jump ?u]"
    by (simp add: st'_def)
  have nth_old: "\<And>i. i \<le> m \<Longrightarrow> trajectory st' ! i = trajectory st ! i"
    by (simp add: tr)
  have nth_new: "trajectory st' ! Suc m = next_position ?cur ?jump ?u"
    using m len by (simp add: tr)
  have i1: "length (trajectory st') = n" by (simp add: tr len)
  have i2: "rng st' = gen_at mvn rand g (Suc m)" by (simp add: st'_def)
  have i3: "trajectory st' ! 0 = (1 / 2, 1 / 2)" by (simp add: nth_old t0)
  have i4: "\<forall>i\<le>Suc m. interior (trajectory st' ! i)"
  proof (intro allI impI)
    fix i assume "i \<le> Suc m"
    then consider "i \<le> m" | "i = Suc m" by linarith
    then show "interior (trajectory st' ! i)"
      by cases (simp_all add: nth_old nth_new int new)
  qed
  have i5: "\<forall>k<Suc m. trajectory st' ! Suc k =
        next_position (trajectory st' ! k) (jump_at mvn rand g k) (u_at mvn rand g k)"
  proof (intro allI impI)
    fix k assume "k < Suc m"
    then consider "k < m" | "k = m" by linarith
    then show "trajectory st' ! Suc k =
        next_position (trajectory st' ! k) (jump_at mvn rand g k) (u_at mvn rand g k)"
      by cases (simp_all add: nth_old nth_new rel)
  qed
  have i6: "0 \<le> n_accepted st'" "0 \<le> n_rejected st'"
    using na nr by (simp_all add: st'_def)
  have i7: "n_accepted st' + n_rejected st' = max 0 (int (Suc m) - 1 - int b)"
    using cnt by (auto simp: st'_def)
  show ?thesis
    using step i1 i2 i3 i4 i5 i6 i7 unfolding walk_inv_def by blast
qed

lemma run_prefix:
  assumes ok: "rand_ok rand" and m: "m < n"
  shows "\<exists>st. run_steps mvn rand b [0..<m] (init_sampler n g) = Inr st \<and> walk_inv mvn rand b n g m st"
  using m
proof (induction m)
  case 0
  then show ?case by (simp add: walk_inv_init)
next
  case (Suc m)
  then obtain st where st: "run_steps mvn rand b [0..<m] (init_sampler n g) = Inr st"
    and inv: "walk_inv mvn rand b n g m st" by auto
  from walk_inv_step[OF ok inv Suc.prems] obtain st' where
    "metropolis_step mvn rand b m st = Inr st'" "walk_inv mvn rand b n g (Suc m) st'" by blast
  then show ?case by (simp add: run_steps_append st)
qed

lemma metropolis_inv:
  assumes ok: "rand_ok rand" and n: "0 < n"
  shows "\<exists>st. metropolis mvn rand n g = Inr st \<and> walk_inv mvn rand (burn_in n) n g (n - 1) st"
  using run_prefix[OF ok, of "n - 1" n mvn "burn_in n" g] n by (simp add: metropolis_def)

lemma rand_ok_demo: "rand_ok demo_rand"
  by (simp add: rand_ok_def demo_rand_def)

lemma run_steps_single: "run_steps mvn rand b [k] st = metropolis_step mvn rand b k st"
  by (simp split: sum.splits)

lemma run_steps_snoc:
  "run_steps mvn rand b (ks @ [m]) st =
     (case run_steps mvn rand b ks st of
        Inl e \<Rightarrow> Inl e | Inr st' \<Rightarrow> metropolis_step mvn rand b m st')"
  by (simp add: run_steps_append split: sum.splits)

lemma metropolis_step_rng:
  "metropolis_step mvn rand b k st = Inr st' \<Longrightarrow> rng st' = snd (rand (snd (mvn (rng st))))"
  by (auto simp: metropolis_step_def Let_def split_beta split: sum.splits if_splits)

lemma run_steps_rng:
  "run_steps mvn rand b [0..<m] st0 = Inr st \<Longrightarrow> rng st = gen_at mvn rand (rng st0) m"
proof (induction m arbitrary: st)
  case 0
  then show ?case by simp
next
  case (Suc m)
  from Suc.prems obtain s where s: "run_steps mvn rand b [0..<m] st0 = Inr s"
    and step: "metropolis_step mvn rand b m s = Inr st"
    by (auto simp: run_steps_snoc split: sum.splits)
  from Suc.IH[OF s] metropolis_step_rng[OF step] show ?case by simp
qed

lemma metropolis_step_same:
  assumes "trajectory s = trajectory s'"
    and "n_accepted s = n_accepted s'" and "n_rejected s = n_rejected s'"
    and "fst (mvn (rng s)) = fst (mvn' (rng s'))"
    and "fst (rand (snd (mvn (rng s)))) = fst (rand' (snd (mvn' (rng s'))))"
  shows "same_output (metropolis_step mvn rand b k s) (metropolis_step mvn' rand' b k s')"
  using assms
  by (auto simp: metropolis_step_def Let_def split_beta split: sum.splits)

lemma run_steps_same:
  assumes "\<forall>k<m. jump_at mvn rand g k = jump_at mvn' rand' g' k \<and>
                 u_at mvn rand g k = u_at mvn' rand' g' k"
  shows "same_output (run_steps mvn rand b [0..<m] (init_sampler n g))
                     (run_steps mvn' rand' b [0..<m] (init_sampler n g'))"
  using assms
proof (induction m)
  case 0
  then show ?case by (simp add: init_sampler_def)
next
  case (Suc m)
  let ?r = "run_steps mvn rand b [0..<m] (init_sampler n g)"
  let ?r' = "run_steps mvn' rand' b [0..<m] (init_sampler n g')"
  from Suc have ih: "same_output ?r ?r'" by simp
  from Suc.prems have jm: "jump_at mvn rand g m = jump_at mvn' rand' g' m"
    and um: "u_at mvn rand g m = u_at mvn' rand' g' m" by simp_all
  show ?case
  proof (cases ?r)
    case (Inl e)
    with ih have "?r' = Inl e" by (cases ?r') simp_all
    with Inl show ?thesis by (simp add: run_steps_snoc)
  next
    case (Inr s)
    with ih obtain s' where r': "?r' = Inr s'" by (cases ?r') simp_all
    from ih Inr r' have eq: "trajectory s = trajectory s'" "n_accepted s = n_accepted s'"
      "n_rejected s = n_rejected s'" by simp_all
    have g: "rng s = gen_at mvn rand g m" using run_steps_rng[OF Inr] by (simp add: init_sampler_def)
    have g': "rng s' = gen_at mvn' rand' g' m" using run_steps_rng[OF r'] by (simp add: init_sampler_def)
    have "same_output (metropolis_step mvn rand b m s) (metropolis_step mvn' rand' b m s')"
      using eq jm um by (intro metropolis_step_same) (simp_all add: g g' jump_at_def u_at_def)
    then show ?thesis by (simp add: run_steps_snoc Inr r')
  qed
qed

lemma burn_in_5000: "burn_in 5000 = 500"
  by (simp add: burn_in_def)

lemma counted_steps: "card {step. step < m \<and> b < step} = m - Suc b"
proof -
  have "{step. step < m \<and> b < step} = {Suc b..<m}" by auto
  then show ?thesis by simp
qed

lemma counters_total:
  assumes "rand_ok rand" and "0 < n"
  shows "\<exists>st. metropolis mvn rand n g = Inr st \<and>
           n_accepted st + n_rejected st = max 0 (int n - 2 - int (burn_in n))"
proof -
  from metropolis_inv[OF assms] obtain st where
    run: "metropolis mvn rand n g = Inr st" and
    inv: "walk_inv mvn rand (burn_in n) n g (n - 1) st"
    by blast
  from inv have "n_accepted st + n_rejected st = max 0 (int (n - 1) - 1 - int (burn_in n))"
    by (simp add: walk_inv_def)
  with assms(2) run show ?thesis by (simp add: of_nat_diff)
qed

lemma centre_density: "target_rel_prob (1 / 2, 1 / 2) = NpFloat (225 / 1048576)"
  by (simp add: target_rel_prob_def in_domain_def likelihood_def prior_def beta_pdf_def
      fact_numeral power_numeral_reduce)

lemma density_a: "target_rel_prob (3 / 5, 2 / 5) = NpFloat (900 * ((3 / 5) ^ 14 * (2 / 5) ^ 8))"
  by (simp add: target_rel_prob_def in_domain_def likelihood_prior_eq power_divide)

lemma density_b: "target_rel_prob (0, 3 / 5) = NpFloat 0"
  by (simp add: target_rel_prob_def in_domain_def likelihood_prior_eq)

lemma demo_step0: "metropolis_step demo_mvn demo_rand (Suc 0) 0 
  \<lparr>trajectory = [(1 / 2, 1 / 2), (0, 0), (0, 0)], n_accepted = 0, n_rejected = 0, rng = 0\<rparr>
  = Inr \<lparr>trajectory = [(1 / 2, 1 / 2), (3 / 5, 2 / 5), (0, 0)], n_accepted = 0, n_rejected = 0, rng = 2\<rparr>"
  by (simp add: metropolis_step_def demo_mvn_def demo_rand_def vadd_def centre_density density_a 
      np_divide_def power_divide)

lemma demo_step1: "metropolis_step demo_mvn demo_rand (Suc 0) (Suc 0)
  \<lparr>trajectory = [(1 / 2, 1 / 2), (3 / 5, 2 / 5), (0, 0)], n_accepted = 0, n_rejected = 0, rng = 2\<rparr>
  = Inr \<lparr>trajectory = [(1 / 2, 1 / 2), (3 / 5, 2 / 5), (3 / 5, 2 / 5)], n_accepted = 0, n_rejected = 0, rng = 4\<rparr>"
  by (simp add: metropolis_step_def demo_mvn_def demo_rand_def vadd_def density_a density_b
      np_divide_def power_divide Let_def)

lemma burn_in_3: "burn_in 3 = 1"
  by (simp add: burn_in_def)

lemma demo_run:
  "metropolis demo_mvn demo_rand 3 0 =
     Inr \<lparr>trajectory = [(1 / 2, 1 / 2), (3 / 5, 2 / 5), (3 / 5, 2 / 5)],
          n_accepted = 0, n_rejected = 0, rng = 4\<rparr>"
proof -
  have "[0..<3 - 1] = [0, Suc 0]" by (simp add: upt_rec)
  moreover have "init_sampler 3 (0::nat) =
      \<lparr>trajectory = [(1 / 2, 1 / 2), (0, 0), (0, 0)], n_accepted = 0, n_rejected = 0, rng = 0\<rparr>"
    by (simp add: init_sampler_def numeral_3_eq_3)
  ultimately show ?thesis
    by (simp add: metropolis_def burn_in_3 demo_step0 demo_step1)
qed

lemma density_c: "target_rel_prob (7 / 10, 3 / 10) = NpFloat (900 * ((7 / 10) ^ 14 * (3 / 10) ^ 8))"
  by (simp add: target_rel_prob_def in_domain_def likelihood_prior_eq power_divide)

lemma burn_in_4: "burn_in 4 = 1"
  by (simp add: burn_in_def)

lemma demo4_step0: "metropolis_step demo_mvn demo_rand (Suc 0) 0
  \<lparr>trajectory = [(1 / 2, 1 / 2), (0, 0), (0, 0), (0, 0)], n_accepted = 0, n_rejected = 0, rng = 0\<rparr>
  = Inr \<lparr>trajectory = [(1 / 2, 1 / 2), (3 / 5, 2 / 5), (0, 0), (0, 0)],
          n_accepted = 0, n_rejected = 0, rng = 2\<rparr>"
  by (simp add: metropolis_step_def demo_mvn_def demo_rand_def vadd_def centre_density density_a
      np_divide_def power_divide)

lemma demo4_step1: "metropolis_step demo_mvn demo_rand (Suc 0) (Suc 0)
  \<lparr>trajectory = [(1 / 2, 1 / 2), (3 / 5, 2 / 5), (0, 0), (0, 0)],
     n_accepted = 0, n_rejected = 0, rng = 2\<rparr>
  = Inr \<lparr>trajectory = [(1 / 2, 1 / 2), (3 / 5, 2 / 5), (3 / 5, 2 / 5), (0, 0)],
          n_accepted = 0, n_rejected = 0, rng = 4\<rparr>"
  by (simp add: metropolis_step_def demo_mvn_def demo_rand_def vadd_def density_a density_b
      np_divide_def power_divide Let_def)

lemma demo4_step2: "metropolis_step demo_mvn demo_rand (Suc 0) 2
  \<lparr>trajectory = [(1 / 2, 1 / 2), (3 / 5, 2 / 5), (3 / 5, 2 / 5), (0, 0)],
     n_accepted = 0, n_rejected = 0, rng = 4\<rparr>
  = Inr \<lparr>trajectory = [(1 / 2, 1 / 2), (3 / 5, 2 / 5), (3 / 5, 2 / 5), (7 / 10, 3 / 10)],
          n_accepted = 1, n_rejected = 0, rng = 6\<rparr>"
  by (simp add: metropolis_step_def demo_mvn_def demo_rand_def vadd_def density_a density_c
      np_divide_def power_divide Let_def)

lemma demo4_run:
  "metropolis demo_mvn demo_rand 4 0 =
     Inr \<lparr>trajectory = [(1 / 2, 1 / 2), (3 / 5, 2 / 5), (3 / 5, 2 / 5), (7 / 10, 3 / 10)],
          n_accepted = 1, n_rejected = 0, rng = 6\<rparr>"
proof -
  have "[0..<4 - 1] = [0, Suc 0, 2]" by (simp add: upt_rec numeral_2_eq_2)
  moreover have "init_sampler 4 (0::nat) =
      \<lparr>trajectory = [(1 / 2, 1 / 2), (0, 0), (0, 0), (0, 0)],
       n_accepted = 0, n_rejected = 0, rng = 0\<rparr>"
    by (simp add: init_sampler_def numeral_eq_Suc)
  ultimately show ?thesis
    by (simp add: metropolis_def burn_in_4 demo4_step0 demo4_step1 demo4_step2)
qed

lemma demo_draws:
  "jump_at demo_mvn demo_rand 0 0 = (1 / 10, - 1 / 10)"
  "u_at demo_mvn demo_rand 0 0 = 1 / 3"
  "jump_at demo_mvn demo_rand 0 (Suc 0) = (- 3 / 5, 1 / 5)"
  "u_at demo_mvn demo_rand 0 (Suc 0) = 1 / 5"
  by (simp_all add: jump_at_def u_at_def demo_mvn_def demo_rand_def)

lemma demo2_draws:
  "jump_at demo2_mvn demo2_rand 0 0 = (1 / 10, - 1 / 10)"
  "u_at demo2_mvn demo2_rand 0 0 = 1 / 3"
  "jump_at demo2_mvn demo2_rand 0 (Suc 0) = (- 3 / 5, 1 / 5)"
  "u_at demo2_mvn demo2_rand 0 (Suc 0) = 1 / 5"
  by (simp_all add: jump_at_def u_at_def demo2_mvn_def demo2_rand_def demo_mvn_def demo_rand_def)

section \<open>The claims about the random walk\<close>

text \<open>
  C1. For every step index from 0 to \<open>traj_length - 2\<close> the sampler forms
  \<open>proposed = current + jump\<close> from the proposal drawn at that step, takes
  \<open>ratio = min(1, target(proposed) / target(current))\<close> and a uniform draw \<open>u\<close>, and writes
  \<open>proposed\<close> into row \<open>step + 1\<close> if \<open>u < ratio\<close> and the current position otherwise: a
  rejected step repeats the current state in the trajectory. The divisor is never 0.
\<close>

theorem metropolis_step_rule:
  assumes "rand_ok rand" and "0 < traj_length"
  shows "\<exists>st. metropolis mvn rand traj_length g = Inr st \<and>
           length (trajectory st) = traj_length \<and>
           trajectory st ! 0 = (1 / 2, 1 / 2) \<and>
           (\<forall>step. step + 1 < traj_length \<longrightarrow>
              (let current = trajectory st ! step;
                   proposed = vadd current (jump_at mvn rand g step);
                   ratio = min 1 (val (target_rel_prob proposed) / val (target_rel_prob current));
                   u = u_at mvn rand g step
               in val (target_rel_prob current) \<noteq> 0 \<and>
                  trajectory st ! (step + 1) = (if u < ratio then proposed else current)))"
proof -
  from metropolis_inv[OF assms] obtain st where
    run: "metropolis mvn rand traj_length g = Inr st" and
    inv: "walk_inv mvn rand (burn_in traj_length) traj_length g (traj_length - 1) st"
    by blast
  have "\<forall>step. step + 1 < traj_length \<longrightarrow>
              (let current = trajectory st ! step;
                   proposed = vadd current (jump_at mvn rand g step);
                   ratio = min 1 (val (target_rel_prob proposed) / val (target_rel_prob current));
                   u = u_at mvn rand g step
               in val (target_rel_prob current) \<noteq> 0 \<and>
                  trajectory st ! (step + 1) = (if u < ratio then proposed else current))"
  proof (intro allI impI)
    fix step assume s: "step + 1 < traj_length"
    then have lt: "step < traj_length - 1" by simp
    from inv lt have "interior (trajectory st ! step)" by (simp add: walk_inv_def)
    then have pos: "val (target_rel_prob (trajectory st ! step)) \<noteq> 0"
      by (simp add: target_zero_iff)
    from inv lt have "trajectory st ! Suc step =
        next_position (trajectory st ! step) (jump_at mvn rand g step) (u_at mvn rand g step)"
      by (simp add: walk_inv_def)
    with pos show "(let current = trajectory st ! step;
                   proposed = vadd current (jump_at mvn rand g step);
                   ratio = min 1 (val (target_rel_prob proposed) / val (target_rel_prob current));
                   u = u_at mvn rand g step
               in val (target_rel_prob current) \<noteq> 0 \<and>
                  trajectory st ! (step + 1) = (if u < ratio then proposed else current))"
      by (simp add: Let_def next_position_def)
  qed
  with run inv show ?thesis by (auto simp: walk_inv_def)
qed

theorem metropolis_step_rule_witness:
  "rand_ok demo_rand \<and> (0::nat) < 3 \<and>
   (\<exists>st. metropolis demo_mvn demo_rand 3 0 = Inr st \<and>
      trajectory st = [(1 / 2, 1 / 2), (3 / 5, 2 / 5), (3 / 5, 2 / 5)] \<and>
      (let current = trajectory st ! 0;
           proposed = vadd current (jump_at demo_mvn demo_rand 0 0);
           ratio = min 1 (val (target_rel_prob proposed) / val (target_rel_prob current));
           u = u_at demo_mvn demo_rand 0 0
       in val (target_rel_prob current) \<noteq> 0 \<and>
          trajectory st ! 1 = (if u < ratio then proposed else current)) \<and>
      (let current = trajectory st ! 1;
           proposed = vadd current (jump_at demo_mvn demo_rand 0 1);
           ratio = min 1 (val (target_rel_prob proposed) / val (target_rel_prob current));
           u = u_at demo_mvn demo_rand 0 1
       in val (target_rel_prob current) \<noteq> 0 \<and>
          trajectory st ! 2 = (if u < ratio then proposed else current)))"
proof -
  from metropolis_step_rule[of demo_rand 3 demo_mvn 0] rand_ok_demo
  obtain st where run: "metropolis demo_mvn demo_rand 3 0 = Inr st"
    and rule: "\<And>step. step + 1 < 3 \<Longrightarrow>
              (let current = trajectory st ! step;
                   proposed = vadd current (jump_at demo_mvn demo_rand 0 step);
                   ratio = min 1 (val (target_rel_prob proposed) / val (target_rel_prob current));
                   u = u_at demo_mvn demo_rand 0 step
               in val (target_rel_prob current) \<noteq> 0 \<and>
                  trajectory st ! (step + 1) = (if u < ratio then proposed else current))"
    by auto
  from run have tr: "trajectory st = [(1 / 2, 1 / 2), (3 / 5, 2 / 5), (3 / 5, 2 / 5)]"
    by (auto simp: demo_run)
  have s0: "(let current = trajectory st ! 0;
              proposed = vadd current (jump_at demo_mvn demo_rand 0 0);
              ratio = min 1 (val (target_rel_prob proposed) / val (target_rel_prob current));
              u = u_at demo_mvn demo_rand 0 0
          in val (target_rel_prob current) \<noteq> 0 \<and>
             trajectory st ! 1 = (if u < ratio then proposed else current))"
    using rule[of 0] by simp
  have s1: "(let current = trajectory st ! 1;
              proposed = vadd current (jump_at demo_mvn demo_rand 0 1);
              ratio = min 1 (val (target_rel_prob proposed) / val (target_rel_prob current));
              u = u_at demo_mvn demo_rand 0 1
          in val (target_rel_prob current) \<noteq> 0 \<and>
             trajectory st ! 2 = (if u < ratio then proposed else current))"
    using rule[of 1] by (simp add: numeral_2_eq_2)
  have "(0::nat) < 3" by simp
  with run tr s0 s1 rand_ok_demo show ?thesis by blast
qed

text \<open>
  C2. \<open>target_rel_prob\<close> returns exactly \<open>0.0\<close> for an argument with a coordinate outside
  \<open>[0, 1]\<close>, and every row of the trajectory the loop leaves has both coordinates in
  \<open>[0, 1]\<close>.
\<close>

theorem domain_containment:
  assumes "rand_ok rand" and "0 < traj_length"
  shows "(\<forall>theta. fst theta < 0 \<or> 1 < fst theta \<or> snd theta < 0 \<or> 1 < snd theta
            \<longrightarrow> target_rel_prob theta = PyFloat 0) \<and>
         (\<exists>st. metropolis mvn rand traj_length g = Inr st \<and>
            length (trajectory st) = traj_length \<and>
            (\<forall>i<traj_length.
               0 \<le> fst (trajectory st ! i) \<and> fst (trajectory st ! i) \<le> 1 \<and>
               0 \<le> snd (trajectory st ! i) \<and> snd (trajectory st ! i) \<le> 1))"
proof -
  from metropolis_inv[OF assms] obtain st where
    run: "metropolis mvn rand traj_length g = Inr st" and
    inv: "walk_inv mvn rand (burn_in traj_length) traj_length g (traj_length - 1) st"
    by blast
  have "0 \<le> fst (trajectory st ! i) \<and> fst (trajectory st ! i) \<le> 1 \<and>
        0 \<le> snd (trajectory st ! i) \<and> snd (trajectory st ! i) \<le> 1"
    if "i < traj_length" for i
  proof -
    from that have "i \<le> traj_length - 1" by simp
    with inv have "interior (trajectory st ! i)" by (simp add: walk_inv_def)
    then show ?thesis by (simp add: interior_def)
  qed
  moreover have "target_rel_prob theta = PyFloat 0"
    if "fst theta < 0 \<or> 1 < fst theta \<or> snd theta < 0 \<or> 1 < snd theta" for theta
    using that by (intro target_outside) (auto simp: in_domain_def)
  ultimately show ?thesis using run inv by (auto simp: walk_inv_def)
qed

theorem domain_containment_witness:
  "rand_ok demo_rand \<and> (0::nat) < 3 \<and>
   (1::real) < fst (3 / 2, 1 / 2 :: real) \<and> target_rel_prob (3 / 2, 1 / 2) = PyFloat 0 \<and>
   (\<exists>st. metropolis demo_mvn demo_rand 3 0 = Inr st \<and>
      trajectory st = [(1 / 2, 1 / 2), (3 / 5, 2 / 5), (3 / 5, 2 / 5)] \<and>
      0 \<le> fst (trajectory st ! 1) \<and> fst (trajectory st ! 1) \<le> 1 \<and>
      0 \<le> snd (trajectory st ! 1) \<and> snd (trajectory st ! 1) \<le> 1 \<and>
      0 \<le> fst (trajectory st ! 2) \<and> fst (trajectory st ! 2) \<le> 1 \<and>
      0 \<le> snd (trajectory st ! 2) \<and> snd (trajectory st ! 2) \<le> 1)"
proof -
  have out: "(1::real) < fst (3 / 2, 1 / 2 :: real)" by simp
  from domain_containment[of demo_rand 3 demo_mvn 0] rand_ok_demo
  have zero: "target_rel_prob (3 / 2, 1 / 2) = PyFloat 0"
    and "\<exists>st. metropolis demo_mvn demo_rand 3 0 = Inr st \<and>
            length (trajectory st) = 3 \<and>
            (\<forall>i<3.
               0 \<le> fst (trajectory st ! i) \<and> fst (trajectory st ! i) \<le> 1 \<and>
               0 \<le> snd (trajectory st ! i) \<and> snd (trajectory st ! i) \<le> 1)"
    by auto
  then obtain st where run: "metropolis demo_mvn demo_rand 3 0 = Inr st"
    and dom: "\<And>i. i < 3 \<Longrightarrow>
               0 \<le> fst (trajectory st ! i) \<and> fst (trajectory st ! i) \<le> 1 \<and>
               0 \<le> snd (trajectory st ! i) \<and> snd (trajectory st ! i) \<le> 1"
    by blast
  from run have tr: "trajectory st = [(1 / 2, 1 / 2), (3 / 5, 2 / 5), (3 / 5, 2 / 5)]"
    by (auto simp: demo_run)
  have "(1::nat) < 3" "(2::nat) < 3" by simp_all
  from dom[OF this(1)] dom[OF this(2)] run tr zero out rand_ok_demo show ?thesis
    by simp
qed

text \<open>
  C3, as the script has it. The counters move only at steps with \<open>step > burn_in\<close>, and the
  last step is \<open>traj_length - 2\<close>: after the loop
  \<open>n_accepted + n_rejected = max(0, traj_length - 2 - burn_in)\<close>, the number of step indices
  \<open>step\<close> with \<open>burn_in < step < traj_length - 1\<close>.
\<close>

theorem counters_sum:
  assumes "rand_ok rand" and "0 < traj_length"
  shows "\<exists>st. metropolis mvn rand traj_length g = Inr st \<and>
           n_accepted st + n_rejected st = max 0 (int traj_length - 2 - int (burn_in traj_length)) \<and>
           n_accepted st + n_rejected st
             = int (card {step. step < traj_length - 1 \<and> burn_in traj_length < step})"
proof -
  from counters_total[OF assms] obtain st where
    run: "metropolis mvn rand traj_length g = Inr st" and
    cnt: "n_accepted st + n_rejected st = max 0 (int traj_length - 2 - int (burn_in traj_length))"
    by blast
  have "max 0 (int traj_length - 2 - int (burn_in traj_length))
        = int (traj_length - 1 - Suc (burn_in traj_length))" by linarith
  with run cnt show ?thesis by (simp add: counted_steps)
qed

theorem counters_sum_witness:
  "rand_ok demo_rand \<and> (0::nat) < 5000 \<and>
   (\<exists>st. metropolis demo_mvn demo_rand 5000 0 = Inr st \<and>
           n_accepted st + n_rejected st = 4498)"
  using counters_sum[of demo_rand 5000 demo_mvn 0] rand_ok_demo
  by (auto simp: burn_in_5000)

text \<open>
  C3 as stated fails. With the script's length 5000 and burn-in 500 the counted steps are 501, ..., 4998, so
  the counters add up to 4498, not to \<open>5000 - 1 - 500 = 4499\<close>.
\<close>

theorem counters_sum_counterexample:
  "\<not> isl (metropolis demo_mvn demo_rand 5000 0) \<and>
   n_accepted (projr (metropolis demo_mvn demo_rand 5000 0))
     + n_rejected (projr (metropolis demo_mvn demo_rand 5000 0)) = 4498 \<and>
   n_accepted (projr (metropolis demo_mvn demo_rand 5000 0))
     + n_rejected (projr (metropolis demo_mvn demo_rand 5000 0))
     \<noteq> max 0 (int 5000 - 1 - int (burn_in 5000))"
  using counters_total[OF rand_ok_demo, of 5000 demo_mvn 0]
  by (auto simp: burn_in_5000)



text \<open>
  C9. The trajectory and the counters depend on the generator only through the values it
  returns, taken in the order proposal first, uniform draw second within each step: two
  runs whose generators return the same values in that order (in particular two runs
  from the same seed) end with the same trajectory and counters, or raise the same
  exception; and the generator state a run ends in is the one reached by alternating the
  two draws \<open>traj_length - 1\<close> times.
\<close>

theorem reproducible:
  assumes "\<forall>step. step + 1 < traj_length \<longrightarrow>
             jump_at mvn rand g step = jump_at mvn' rand' g' step \<and>
             u_at mvn rand g step = u_at mvn' rand' g' step"
  shows "same_output (metropolis mvn rand traj_length g) (metropolis mvn' rand' traj_length g') \<and>
         (\<forall>st. metropolis mvn rand traj_length g = Inr st \<longrightarrow>
            rng st = gen_at mvn rand g (traj_length - 1))"
proof
  from assms have "\<forall>k<traj_length - 1. jump_at mvn rand g k = jump_at mvn' rand' g' k \<and>
                 u_at mvn rand g k = u_at mvn' rand' g' k" by simp
  from run_steps_same[OF this]
  show "same_output (metropolis mvn rand traj_length g) (metropolis mvn' rand' traj_length g')"
    by (simp add: metropolis_def)
  show "\<forall>st. metropolis mvn rand traj_length g = Inr st \<longrightarrow>
            rng st = gen_at mvn rand g (traj_length - 1)"
    by (auto simp: metropolis_def init_sampler_def dest!: run_steps_rng split: if_splits)
qed

theorem reproducible_witness:
  "jump_at demo_mvn demo_rand 0 0 = jump_at demo2_mvn demo2_rand 0 0 \<and>
   u_at demo_mvn demo_rand 0 0 = u_at demo2_mvn demo2_rand 0 0 \<and>
   jump_at demo_mvn demo_rand 0 1 = jump_at demo2_mvn demo2_rand 0 1 \<and>
   u_at demo_mvn demo_rand 0 1 = u_at demo2_mvn demo2_rand 0 1 \<and>
   same_output (metropolis demo_mvn demo_rand 3 0) (metropolis demo2_mvn demo2_rand 3 0) \<and>
   (\<exists>st. metropolis demo_mvn demo_rand 3 0 = Inr st \<and> rng st = gen_at demo_mvn demo_rand 0 2) \<and>
   gen_at demo_mvn demo_rand 0 2 = 4"
proof -
  have draws: "\<forall>step. step + 1 < (3::nat) \<longrightarrow>
      jump_at demo_mvn demo_rand 0 step = jump_at demo2_mvn demo2_rand 0 step \<and>
      u_at demo_mvn demo_rand 0 step = u_at demo2_mvn demo2_rand 0 step"
  proof (intro allI impI)
    fix step :: nat assume "step + 1 < 3"
    then consider "step = 0" | "step = Suc 0" by linarith
    then show "jump_at demo_mvn demo_rand 0 step = jump_at demo2_mvn demo2_rand 0 step \<and>
      u_at demo_mvn demo_rand 0 step = u_at demo2_mvn demo2_rand 0 step"
      by cases (simp_all add: demo_draws demo2_draws)
  qed
  have "gen_at demo_mvn demo_rand 0 2 = 4"
    by (simp add: numeral_2_eq_2 demo_mvn_def demo_rand_def)
  with reproducible[OF draws] demo_run show ?thesis
    by (simp add: demo_draws demo2_draws)
qed

text \<open>
  C10. Every row of the trajectory has strictly positive target density, and so no
  coordinate of a row is exactly 0 or 1.
\<close>

theorem positive_density:
  assumes "rand_ok rand" and "0 < traj_length"
  shows "\<exists>st. metropolis mvn rand traj_length g = Inr st \<and>
           length (trajectory st) = traj_length \<and>
           (\<forall>i<traj_length.
              0 < val (target_rel_prob (trajectory st ! i)) \<and>
              fst (trajectory st ! i) \<noteq> 0 \<and> fst (trajectory st ! i) \<noteq> 1 \<and>
              snd (trajectory st ! i) \<noteq> 0 \<and> snd (trajectory st ! i) \<noteq> 1)"
proof -
  from metropolis_inv[OF assms] obtain st where
    run: "metropolis mvn rand traj_length g = Inr st" and
    inv: "walk_inv mvn rand (burn_in traj_length) traj_length g (traj_length - 1) st"
    by blast
  have "0 < val (target_rel_prob (trajectory st ! i)) \<and>
              fst (trajectory st ! i) \<noteq> 0 \<and> fst (trajectory st ! i) \<noteq> 1 \<and>
              snd (trajectory st ! i) \<noteq> 0 \<and> snd (trajectory st ! i) \<noteq> 1"
    if "i < traj_length" for i
  proof -
    from that have "i \<le> traj_length - 1" by simp
    with inv have "interior (trajectory st ! i)" by (simp add: walk_inv_def)
    then show ?thesis by (simp add: target_pos_iff) (simp add: interior_def)
  qed
  with run inv show ?thesis by (auto simp: walk_inv_def)
qed

theorem positive_density_witness:
  "rand_ok demo_rand \<and> (0::nat) < 3 \<and>
   (\<exists>st. metropolis demo_mvn demo_rand 3 0 = Inr st \<and>
      length (trajectory st) = 3 \<and>
      0 < val (target_rel_prob (trajectory st ! 0)) \<and>
      0 < val (target_rel_prob (trajectory st ! 1)) \<and>
      0 < val (target_rel_prob (trajectory st ! 2)) \<and>
      fst (trajectory st ! 1) \<noteq> 0 \<and> fst (trajectory st ! 1) \<noteq> 1 \<and>
      snd (trajectory st ! 1) \<noteq> 0 \<and> snd (trajectory st ! 1) \<noteq> 1)"
proof -
  from positive_density[of demo_rand 3 demo_mvn 0] rand_ok_demo show ?thesis
    by auto
qed

section \<open>Properties of the inference from the sample\<close>

lemma fill_prefix:
  "m \<le> n \<Longrightarrow>
   fold (\<lambda>idx arr. arr[idx := f idx]) [0..<m] (replicate n (0::real))
     = map f [0..<m] @ replicate (n - m) 0"
proof (induction m)
  case 0
  then show ?case by simp
next
  case (Suc m)
  then have m: "m < n" by simp
  have r: "replicate (n - m) (0::real) = 0 # replicate (n - Suc m) 0"
    using m by (cases "n - m") (simp_all add: Suc_diff_Suc)
  have "fold (\<lambda>idx arr. arr[idx := f idx]) [0..<Suc m] (replicate n 0)
      = (map f [0..<m] @ replicate (n - m) 0)[m := f m]"
    using Suc by simp
  also have "\<dots> = map f [0..<m] @ (0 # replicate (n - Suc m) 0)[0 := f m]"
    unfolding r by (simp add: list_update_append)
  also have "\<dots> = map f [0..<Suc m] @ replicate (n - Suc m) 0"
    by simp
  finally show ?case .
qed

lemma fill_map: "fill n f = map f [0..<n]"
  using fill_prefix[of n n f] by (simp add: fill_def)

lemma fill_nth: "fill (length pts) (\<lambda>i. h (pts ! i)) = map h pts"
proof -
  have "map (\<lambda>i. h (pts ! i)) [0..<length pts] = map h (map ((!) pts) [0..<length pts])"
    by simp
  also have "\<dots> = map h pts" by (simp only: map_nth)
  finally show ?thesis by (simp only: fill_map)
qed

lemma post_prob_map: "post_prob pts = map (\<lambda>p. val (target_rel_prob p)) pts"
  unfolding post_prob_def by (rule fill_nth)

lemma mask_rows_filter: "mask_rows rows (map P (map h rows)) = filter (\<lambda>r. P (h r)) rows"
  unfolding mask_rows_def by (induction rows) simp_all

lemma np_percentile_defined:
  assumes "a \<noteq> []" and "0 \<le> q" and "q \<le> 100"
  shows "\<exists>w. np_percentile a q = Inr w"
  using assms by (simp add: np_percentile_def Let_def)

lemma HDI_points_filter:
  assumes "waterline credmass pts = Inr w"
  shows "HDI_points credmass pts = Inr (filter (\<lambda>p. w < val (target_rel_prob p)) pts)"
proof -
  have "mask_rows pts (map (\<lambda>v. w < v) (post_prob pts))
        = filter (\<lambda>p. w < val (target_rel_prob p)) pts"
    unfolding post_prob_map by (rule mask_rows_filter)
  with assms show ?thesis by (simp add: HDI_points_def)
qed

lemma wtd_evid_map:
  "wtd_evid pdf pts =
     map (\<lambda>p. pdf (fst p) (fst (beta_a pts)) (fst (beta_b pts))
              * pdf (snd p) (snd (beta_a pts)) (snd (beta_b pts))
              / (likelihood p * prior p)) pts"
  unfolding wtd_evid_def Let_def by (rule fill_nth)

lemma spec_weight_eq:
  assumes "in_domain p"
  shows "spec_weight pdf (\<lambda>p. val (target_rel_prob p)) pts p =
         pdf (fst p) (fst (beta_a pts)) (fst (beta_b pts))
           * pdf (snd p) (snd (beta_a pts)) (snd (beta_b pts))
           / (likelihood p * prior p)"
  using assms
  by (simp add: spec_weight_def moment_a_def moment_b_def beta_a_def beta_b_def Let_def
      target_rel_prob_def)

lemma p_data_spec:
  assumes "\<forall>p\<in>set pts. in_domain p"
  shows "p_data pdf pts = spec_evidence pdf (\<lambda>p. val (target_rel_prob p)) pts"
proof -
  have "wtd_evid pdf pts = map (spec_weight pdf (\<lambda>p. val (target_rel_prob p)) pts) pts"
    unfolding wtd_evid_map using assms by (intro map_cong refl) (simp add: spec_weight_eq)
  then show ?thesis by (simp add: p_data_def spec_evidence_def np_mean_def)
qed

lemma lerp_at_mono:
  assumes srt: "sorted s" and ne: "s \<noteq> []"
    and p1: "0 \<le> p1" and le: "p1 \<le> p2" and p2: "p2 \<le> real (length s - 1)"
  shows "lerp_at s p1 \<le> lerp_at s p2"
proof -
  define n where "n = length s"
  define l1 where "l1 = nat \<lfloor>p1\<rfloor>"
  define l2 where "l2 = nat \<lfloor>p2\<rfloor>"
  define h1 where "h1 = min (l1 + 1) (n - 1)"
  define h2 where "h2 = min (l2 + 1) (n - 1)"
  define g1 where "g1 = p1 - real l1"
  define g2 where "g2 = p2 - real l2"
  have n: "0 < n" using ne by (simp add: n_def)
  have v1: "lerp_at s p1 = s ! l1 + g1 * (s ! h1 - s ! l1)"
    by (simp add: lerp_at_def Let_def l1_def h1_def g1_def n_def)
  have v2: "lerp_at s p2 = s ! l2 + g2 * (s ! h2 - s ! l2)"
    by (simp add: lerp_at_def Let_def l2_def h2_def g2_def n_def)
  have l12: "l1 \<le> l2" unfolding l1_def l2_def using le by (intro nat_mono floor_mono)
  have "\<lfloor>p2\<rfloor> \<le> int (n - 1)" using p2 by (simp add: n_def floor_le_iff)
  then have l2n: "l2 \<le> n - 1" by (simp add: l2_def)
  with l12 have l1n: "l1 \<le> n - 1" by simp
  have rl1: "real l1 = of_int \<lfloor>p1\<rfloor>" using p1 by (simp add: l1_def)
  have rl2: "real l2 = of_int \<lfloor>p2\<rfloor>" using p1 le by (simp add: l2_def)
  have g1b: "0 \<le> g1" "g1 \<le> 1" unfolding g1_def rl1 by linarith+
  have g2b: "0 \<le> g2" "g2 \<le> 1" unfolding g2_def rl2 by linarith+
  have nth_mono: "s ! i \<le> s ! j" if "i \<le> j" "j \<le> n - 1" for i j
  proof -
    from that n have "j < length s" unfolding n_def by linarith
    with srt that(1) show ?thesis by (rule sorted_nth_mono)
  qed
  have d1: "s ! l1 \<le> s ! h1" using l1n by (intro nth_mono) (simp_all add: h1_def)
  have d2: "s ! l2 \<le> s ! h2" using l2n by (intro nth_mono) (simp_all add: h2_def)
  have up1: "lerp_at s p1 \<le> s ! h1"
  proof -
    have "g1 * (s ! h1 - s ! l1) \<le> 1 * (s ! h1 - s ! l1)"
      using g1b d1 by (intro mult_right_mono) simp_all
    then show ?thesis by (simp add: v1)
  qed
  have lo2: "s ! l2 \<le> lerp_at s p2"
    using g2b d2 by (simp add: v2)
  show ?thesis
  proof (cases "l1 = l2")
    case True
    then have h: "h1 = h2" by (simp add: h1_def h2_def)
    have "g1 \<le> g2" using le True by (simp add: g1_def g2_def)
    then have "g1 * (s ! h2 - s ! l2) \<le> g2 * (s ! h2 - s ! l2)"
      using d2 by (intro mult_right_mono) simp_all
    then show ?thesis by (simp add: v1 v2 True h)
  next
    case False
    with l12 have "l1 + 1 \<le> l2" by simp
    then have "h1 \<le> l2" by (simp add: h1_def)
    then have "s ! h1 \<le> s ! l2" using l2n by (rule nth_mono)
    with up1 lo2 show ?thesis by linarith
  qed
qed

lemma np_percentile_mono:
  assumes "a \<noteq> []" and "0 \<le> q1" and "q1 \<le> q2" and "q2 \<le> 100"
  shows "\<exists>w1 w2. np_percentile a q1 = Inr w1 \<and> np_percentile a q2 = Inr w2 \<and> w1 \<le> w2"
proof -
  let ?s = "sort a"
  let ?m = "real (length a - 1)"
  have len: "length ?s = length a" by simp
  have ne: "?s \<noteq> []"
  proof
    assume "?s = []"
    then have "length ?s = 0" by (simp only: list.size)
    then show False using assms(1) by simp
  qed
  have a: "0 \<le> q1 / 100 * ?m" using assms(2) by simp
  have b: "q1 / 100 * ?m \<le> q2 / 100 * ?m"
    using assms(3) by (intro mult_right_mono divide_right_mono) simp_all
  have "q2 / 100 * ?m \<le> 1 * ?m"
    using assms(4) by (intro mult_right_mono) simp_all
  then have c: "q2 / 100 * ?m \<le> real (length ?s - 1)" by simp
  have "lerp_at ?s (q1 / 100 * ?m) \<le> lerp_at ?s (q2 / 100 * ?m)"
    using sorted_sort ne a b c by (rule lerp_at_mono)
  then show ?thesis using assms by (simp add: np_percentile_def)
qed

lemma filter_length_mono:
  "(\<And>x. P x \<Longrightarrow> Q x) \<Longrightarrow> length (filter P xs) \<le> length (filter Q xs)"
  by (induction xs) auto

lemma accepted_in_domain:
  assumes "walk_inv mvn rand b n g (n - 1) st"
  shows "\<forall>p\<in>set (accepted_traj b' (trajectory st)). in_domain p"
proof
  fix p assume "p \<in> set (accepted_traj b' (trajectory st))"
  then have "p \<in> set (trajectory st)" unfolding accepted_traj_def by (rule in_set_dropD)
  then obtain i where i: "i < length (trajectory st)" and p: "trajectory st ! i = p"
    by (auto simp: in_set_conv_nth)
  from assms i have "i \<le> n - 1" by (simp add: walk_inv_def)
  with assms have "interior (trajectory st ! i)" by (simp add: walk_inv_def)
  then show "in_domain p" unfolding p by (rule interior_in_domain)
qed

lemma burn_in_div: "burn_in n = (n + 9) div 10"
proof -
  have "\<lceil>(1 / 10) * real n\<rceil> = \<lceil>real_of_int (int n) / real_of_int 10\<rceil>" by simp
  also have "\<dots> = - (- int n div 10)" by (rule ceiling_divide_eq_div)
  finally have "burn_in n = nat (- (- int n div 10))" by (simp only: burn_in_def)
  then show ?thesis by linarith
qed

lemma burn_in_less: "2 \<le> n \<Longrightarrow> burn_in n < n"
  unfolding burn_in_div by linarith

lemma sum_list_sq_dev:
  "sum_list (map (\<lambda>x. (x - m)\<^sup>2) xs)
     = sum_list (map (\<lambda>x. x\<^sup>2) xs) - 2 * m * sum_list xs + real (length xs) * m\<^sup>2"
  by (induction xs) (simp_all add: power2_eq_square algebra_simps)

lemma np_mean_sum: "xs \<noteq> [] \<Longrightarrow> real (length xs) * np_mean xs = sum_list xs"
  by (simp add: np_mean_def)

lemma np_std_sq:
  assumes "xs \<noteq> []"
  shows "(np_std xs)\<^sup>2 = sum_list (map (\<lambda>x. x\<^sup>2) xs) / real (length xs) - (np_mean xs)\<^sup>2"
proof -
  let ?N = "real (length xs)"
  let ?m = "np_mean xs"
  from assms have N: "0 < ?N" by simp
  have nn: "0 \<le> np_mean (map (\<lambda>x. \<bar>x - ?m\<bar>\<^sup>2) xs)"
    unfolding np_mean_def by (intro divide_nonneg_nonneg sum_list_nonneg) auto
  have "(np_std xs)\<^sup>2 = np_mean (map (\<lambda>x. \<bar>x - ?m\<bar>\<^sup>2) xs)"
    unfolding np_std_def using nn by (rule real_sqrt_pow2)
  also have "\<dots> = sum_list (map (\<lambda>x. (x - ?m)\<^sup>2) xs) / ?N"
    by (simp add: np_mean_def)
  also have "\<dots> = (sum_list (map (\<lambda>x. x\<^sup>2) xs) - 2 * ?m * (?N * ?m) + ?N * ?m\<^sup>2) / ?N"
    by (simp only: sum_list_sq_dev np_mean_sum[OF assms])
  also have "\<dots> = sum_list (map (\<lambda>x. x\<^sup>2) xs) / ?N - ?m\<^sup>2"
    using N by (simp add: field_simps power2_eq_square)
  finally show ?thesis .
qed

lemma np_std_nonneg: "0 \<le> np_std xs"
  unfolding np_std_def np_mean_def
  by (intro real_sqrt_ge_zero divide_nonneg_nonneg sum_list_nonneg) auto

lemma demo_post_prob:
  "post_prob demo_pts = [225 / 1048576, 900 * ((3 / 5) ^ 14 * (2 / 5) ^ 8),
                         900 * ((1 / 2) ^ 11 * (3 / 10) ^ 4 * (7 / 10) ^ 7)]"
  by (simp add: post_prob_map demo_pts_def target_rel_prob_def in_domain_def likelihood_prior_eq
      power_divide)

lemma demo_sorted:
  "sort [225 / 1048576 :: real, 900 * ((3 / 5) ^ 14 * (2 / 5) ^ 8),
         900 * ((1 / 2) ^ 11 * (3 / 10) ^ 4 * (7 / 10) ^ 7)]
   = [225 / 1048576, 900 * ((1 / 2) ^ 11 * (3 / 10) ^ 4 * (7 / 10) ^ 7),
      900 * ((3 / 5) ^ 14 * (2 / 5) ^ 8)]"
  by (simp add: power_divide)

lemma demo_waterline:
  "waterline (95 / 100) demo_pts =
     Inr (225 / 1048576
          + 19 / 1000 * (900 * ((1 / 2) ^ 11 * (3 / 10) ^ 4 * (7 / 10) ^ 7) - 225 / 1048576))"
proof -
  have fl: "nat \<lfloor>19 / 1000 :: real\<rfloor> = 0" by simp
  show ?thesis
    unfolding waterline_def demo_post_prob np_percentile_def lerp_at_def Let_def demo_sorted
    by (simp add: fl)
qed

lemma demo_hdi:
  "HDI_points (95 / 100) demo_pts = Inr [(3 / 5, 2 / 5), (1 / 2, 3 / 10)]"
  unfolding HDI_points_def demo_waterline demo_post_prob
  by (simp add: mask_rows_def demo_pts_def power_divide)

lemma accepted_interior:
  assumes "walk_inv mvn rand b n g (n - 1) st"
  shows "\<forall>p\<in>set (accepted_traj b' (trajectory st)). interior p"
proof
  fix p assume "p \<in> set (accepted_traj b' (trajectory st))"
  then have "p \<in> set (trajectory st)" unfolding accepted_traj_def by (rule in_set_dropD)
  then obtain i where i: "i < length (trajectory st)" and p: "trajectory st ! i = p"
    by (auto simp: in_set_conv_nth)
  from assms i have "i \<le> n - 1" by (simp add: walk_inv_def)
  with assms have "interior (trajectory st ! i)" by (simp add: walk_inv_def)
  then show "interior p" unfolding p .
qed

lemma accepted_nonempty:
  assumes "walk_inv mvn rand b n g (n - 1) st" and "2 \<le> n"
  shows "accepted_traj (burn_in n) (trajectory st) \<noteq> []"
proof -
  from assms(1) have "length (trajectory st) = n" by (simp add: walk_inv_def)
  with burn_in_less[OF assms(2)] show ?thesis by (simp add: accepted_traj_def)
qed

lemma sum_list_pos_real:
  fixes xs :: "real list"
  assumes "xs \<noteq> []" and "\<forall>x\<in>set xs. 0 < x"
  shows "0 < sum_list xs"
  using assms
proof (induction xs)
  case Nil
  then show ?case by simp
next
  case (Cons x xs)
  then have "0 < x" by simp
  moreover from Cons.prems have "0 \<le> sum_list xs"
    by (intro sum_list_nonneg) (simp add: less_imp_le)
  ultimately show ?case by simp
qed

lemma np_mean_pos:
  assumes "xs \<noteq> []" and "\<forall>x\<in>set xs. 0 < x"
  shows "0 < np_mean xs"
  unfolding np_mean_def using sum_list_pos_real[OF assms] assms(1) by simp

lemma np_mean_less_one:
  assumes "xs \<noteq> []" and "\<forall>x\<in>set xs. x < 1"
  shows "np_mean xs < 1"
proof -
  have "sum_list (map (\<lambda>x. x) xs) < sum_list (map (\<lambda>x. 1) xs)"
    using assms by (intro sum_list_strict_mono) auto
  then have "sum_list xs < real (length xs)" by (simp add: sum_list_triv)
  then show ?thesis using assms(1) by (simp add: np_mean_def)
qed

lemma np_std_sq_less:
  assumes ne: "xs \<noteq> []" and unit: "\<forall>x\<in>set xs. 0 < x \<and> x < 1"
  shows "(np_std xs)\<^sup>2 < np_mean xs * (1 - np_mean xs)"
proof -
  have "x\<^sup>2 < x" if "x \<in> set xs" for x
  proof -
    from that unit have "0 < x" "x < 1" by auto
    then have "x * x < x * 1" by (intro mult_strict_left_mono)
    then show ?thesis by (simp add: power2_eq_square)
  qed
  with ne have "sum_list (map (\<lambda>x. x\<^sup>2) xs) < sum_list (map (\<lambda>x. x) xs)"
    by (intro sum_list_strict_mono) auto
  then have "sum_list (map (\<lambda>x. x\<^sup>2) xs) / real (length xs) < sum_list xs / real (length xs)"
    using ne by (simp add: divide_strict_right_mono)
  then have "(np_std xs)\<^sup>2 < np_mean xs - (np_mean xs)\<^sup>2"
    unfolding np_std_sq[OF ne] by (simp add: np_mean_def)
  then show ?thesis by (simp add: algebra_simps power2_eq_square)
qed

lemma moment_pos:
  assumes m: "0 < m" "m < 1" and s: "s \<noteq> 0" and v: "s\<^sup>2 < m * (1 - m)"
  shows "0 < moment_a m s" and "0 < moment_b m s"
proof -
  from s have "0 < s\<^sup>2" by simp
  with v have "1 < m * (1 - m) / s\<^sup>2" by simp
  then have "0 < m * (1 - m) / s\<^sup>2 - 1" by simp
  with m show "0 < moment_a m s" and "0 < moment_b m s"
    by (simp_all add: moment_a_def moment_b_def)
qed

lemma beta_moment:
  "beta_a pts = (moment_a (fst (mean_traj pts)) (fst (stdTraj pts)),
                 moment_a (snd (mean_traj pts)) (snd (stdTraj pts)))"
  "beta_b pts = (moment_b (fst (mean_traj pts)) (fst (stdTraj pts)),
                 moment_b (snd (mean_traj pts)) (snd (stdTraj pts)))"
  by (simp_all add: beta_a_def beta_b_def moment_a_def moment_b_def Let_def)

lemma shape_pos:
  assumes ne: "pts \<noteq> []" and int: "\<forall>p\<in>set pts. interior p"
    and s1: "fst (stdTraj pts) \<noteq> 0" and s2: "snd (stdTraj pts) \<noteq> 0"
  shows "0 < fst (beta_a pts) \<and> 0 < snd (beta_a pts) \<and>
         0 < fst (beta_b pts) \<and> 0 < snd (beta_b pts)"
proof -
  from ne have n1: "map fst pts \<noteq> []" and n2: "map snd pts \<noteq> []" by simp_all
  from int have u1: "\<forall>x\<in>set (map fst pts). 0 < x \<and> x < 1"
    and u2: "\<forall>x\<in>set (map snd pts). 0 < x \<and> x < 1"
    by (auto simp: interior_def)
  have m1: "0 < fst (mean_traj pts)" "fst (mean_traj pts) < 1"
    using np_mean_pos[OF n1] np_mean_less_one[OF n1] u1 by (simp_all add: mean_traj_def)
  have m2: "0 < snd (mean_traj pts)" "snd (mean_traj pts) < 1"
    using np_mean_pos[OF n2] np_mean_less_one[OF n2] u2 by (simp_all add: mean_traj_def)
  have v1: "(fst (stdTraj pts))\<^sup>2 < fst (mean_traj pts) * (1 - fst (mean_traj pts))"
    using np_std_sq_less[OF n1 u1] by (simp add: stdTraj_def mean_traj_def)
  have v2: "(snd (stdTraj pts))\<^sup>2 < snd (mean_traj pts) * (1 - snd (mean_traj pts))"
    using np_std_sq_less[OF n2 u2] by (simp add: stdTraj_def mean_traj_def)
  from moment_pos[OF m1 s1 v1] moment_pos[OF m2 s2 v2] show ?thesis
    by (simp add: beta_moment)
qed

lemma density_pos:
  assumes "interior p"
  shows "0 < likelihood p * prior p" and "likelihood p * prior p = val (target_rel_prob p)"
proof -
  from assms have d: "in_domain p" by (rule interior_in_domain)
  then show eq: "likelihood p * prior p = val (target_rel_prob p)"
    by (simp add: target_rel_prob_def)
  from assms have "0 < val (target_rel_prob p)" by (simp add: target_pos_iff)
  then show "0 < likelihood p * prior p" by (simp only: eq)
qed

lemma demo4_trim:
  "accepted_traj (burn_in 4) [(1 / 2, 1 / 2), (3 / 5, 2 / 5), (3 / 5, 2 / 5), (7 / 10, 3 / 10)]
     = [(3 / 5, 2 / 5), (3 / 5, 2 / 5), (7 / 10, 3 / 10)]"
  by (simp add: accepted_traj_def burn_in_4)

lemma demo4_std:
  "fst (stdTraj [(3 / 5, 2 / 5), (3 / 5, 2 / 5), (7 / 10, 3 / 10)]) \<noteq> 0"
  "snd (stdTraj [(3 / 5, 2 / 5), (3 / 5, 2 / 5), (7 / 10, 3 / 10)]) \<noteq> 0"
proof -
  have "(np_std [3 / 5, 3 / 5, 7 / 10])\<^sup>2 = 1 / 450"
    by (subst np_std_sq) (simp_all add: np_mean_def power2_eq_square)
  then have "np_std [3 / 5, 3 / 5, 7 / 10] \<noteq> 0" by auto
  then show "fst (stdTraj [(3 / 5, 2 / 5), (3 / 5, 2 / 5), (7 / 10, 3 / 10)]) \<noteq> 0"
    by (simp add: stdTraj_def)
  have "(np_std [2 / 5, 2 / 5, 3 / 10])\<^sup>2 = 1 / 450"
    by (subst np_std_sq) (simp_all add: np_mean_def power2_eq_square)
  then have "np_std [2 / 5, 2 / 5, 3 / 10] \<noteq> 0" by auto
  then show "snd (stdTraj [(3 / 5, 2 / 5), (3 / 5, 2 / 5), (7 / 10, 3 / 10)]) \<noteq> 0"
    by (simp add: stdTraj_def)
qed

lemma demo4_weights:
  "np_mean (wtd_evid demo_pdf [(3 / 5, 2 / 5), (3 / 5, 2 / 5), (7 / 10, 3 / 10)]) \<noteq> 0"
proof -
  have "0 < np_mean (wtd_evid demo_pdf [(3 / 5, 2 / 5), (3 / 5, 2 / 5), (7 / 10, 3 / 10)])"
    by (rule np_mean_pos)
      (simp_all add: wtd_evid_map demo_pdf_def likelihood_prior_eq in_domain_def)
  then show ?thesis by simp
qed

section \<open>The claims about the inference from the sample\<close>

text \<open>
  C5. The densities of the trimmed points are evaluated one by one; the waterline is
  \<open>np.percentile\<close> of these values at \<open>credmass\<close>; the points returned are exactly the
  trimmed points whose density is strictly above the waterline, in their order (a point
  whose density equals the waterline is left out).
\<close>

theorem hdi_points_threshold:
  assumes "pts \<noteq> []" and "0 \<le> credmass" and "credmass \<le> 100"
  shows "post_prob pts = map (\<lambda>p. val (target_rel_prob p)) pts \<and>
         (\<exists>w. waterline credmass pts = Inr w \<and>
              np_percentile (map (\<lambda>p. val (target_rel_prob p)) pts) credmass = Inr w \<and>
              HDI_points credmass pts = Inr (filter (\<lambda>p. w < val (target_rel_prob p)) pts) \<and>
              set (filter (\<lambda>p. w < val (target_rel_prob p)) pts)
                = {p. p \<in> set pts \<and> w < val (target_rel_prob p)})"
proof -
  from assms have "post_prob pts \<noteq> []" by (simp add: post_prob_map)
  from np_percentile_defined[OF this assms(2,3)]
  obtain w where w: "waterline credmass pts = Inr w" by (auto simp: waterline_def)
  then have "np_percentile (map (\<lambda>p. val (target_rel_prob p)) pts) credmass = Inr w"
    by (simp add: waterline_def post_prob_map)
  with w HDI_points_filter[OF w] show ?thesis by (auto simp: post_prob_map)
qed

theorem hdi_points_threshold_witness:
  "demo_pts \<noteq> [] \<and> (0::real) \<le> 95 / 100 \<and> (95 / 100 :: real) \<le> 100 \<and>
   post_prob demo_pts = map (\<lambda>p. val (target_rel_prob p)) demo_pts \<and>
   (\<exists>w. waterline (95 / 100) demo_pts = Inr w \<and>
        np_percentile (map (\<lambda>p. val (target_rel_prob p)) demo_pts) (95 / 100) = Inr w \<and>
        HDI_points (95 / 100) demo_pts
          = Inr (filter (\<lambda>p. w < val (target_rel_prob p)) demo_pts) \<and>
        filter (\<lambda>p. w < val (target_rel_prob p)) demo_pts = [(3 / 5, 2 / 5), (1 / 2, 3 / 10)])"
proof -
  have ne: "demo_pts \<noteq> []" by (simp add: demo_pts_def)
  from hdi_points_threshold[OF ne, of "95 / 100"] ne demo_hdi show ?thesis by auto
qed

text \<open>
  C6. On the trimmed trajectory of a run of at least two rows, which is not empty and
  whose points all have \<open>likelihood * prior\<close> positive and equal to the target density:
  where the standard deviation of neither coordinate is 0 and the mean of the weights is
  not 0 (the divisors of the computation), the shape parameters
  \<open>a = m ((m (1 - m) / s\<^sup>2) - 1)\<close> and \<open>b = (1 - m) ((m (1 - m) / s\<^sup>2) - 1)\<close> of both
  dimensions are positive, and the evidence the script computes is the estimate of the
  specification: weights the product of the two Beta densities divided by the target
  density of the point, and 1 over the arithmetic mean of the weights.
\<close>

theorem evidence_estimate:
  assumes "rand_ok rand" and "2 \<le> traj_length"
  shows "\<exists>st. metropolis mvn rand traj_length g = Inr st \<and>
           (let pts = accepted_traj (burn_in traj_length) (trajectory st)
            in pts \<noteq> [] \<and>
               (\<forall>p\<in>set pts. 0 < likelihood p * prior p \<and>
                             likelihood p * prior p = val (target_rel_prob p)) \<and>
               (fst (stdTraj pts) \<noteq> 0 \<and> snd (stdTraj pts) \<noteq> 0 \<and>
                np_mean (wtd_evid pdf pts) \<noteq> 0 \<longrightarrow>
                  0 < fst (beta_a pts) \<and> 0 < snd (beta_a pts) \<and>
                  0 < fst (beta_b pts) \<and> 0 < snd (beta_b pts) \<and>
                  p_data pdf pts = spec_evidence pdf (\<lambda>p. val (target_rel_prob p)) pts))"
proof -
  from assms(2) have "0 < traj_length" by simp
  from metropolis_inv[OF assms(1) this] obtain st where
    run: "metropolis mvn rand traj_length g = Inr st" and
    inv: "walk_inv mvn rand (burn_in traj_length) traj_length g (traj_length - 1) st"
    by blast
  define pts where "pts = accepted_traj (burn_in traj_length) (trajectory st)"
  have ne: "pts \<noteq> []" unfolding pts_def using inv assms(2) by (rule accepted_nonempty)
  have int: "\<forall>p\<in>set pts. interior p" unfolding pts_def using inv by (rule accepted_interior)
  have dom: "\<forall>p\<in>set pts. in_domain p" unfolding pts_def using inv by (rule accepted_in_domain)
  have dens: "\<forall>p\<in>set pts. 0 < likelihood p * prior p \<and>
                likelihood p * prior p = val (target_rel_prob p)"
    using int density_pos by blast
  have shape: "0 < fst (beta_a pts) \<and> 0 < snd (beta_a pts) \<and>
               0 < fst (beta_b pts) \<and> 0 < snd (beta_b pts)"
    if "fst (stdTraj pts) \<noteq> 0" "snd (stdTraj pts) \<noteq> 0"
    using ne int that by (rule shape_pos)
  have "p_data pdf pts = spec_evidence pdf (\<lambda>p. val (target_rel_prob p)) pts"
    using dom by (rule p_data_spec)
  with run ne dens shape show ?thesis unfolding pts_def Let_def by blast
qed

theorem evidence_estimate_witness:
  "rand_ok demo_rand \<and> (2::nat) \<le> 4 \<and>
   metropolis demo_mvn demo_rand 4 0 =
     Inr \<lparr>trajectory = [(1 / 2, 1 / 2), (3 / 5, 2 / 5), (3 / 5, 2 / 5), (7 / 10, 3 / 10)],
          n_accepted = 1, n_rejected = 0, rng = 6\<rparr> \<and>
   accepted_traj (burn_in 4) [(1 / 2, 1 / 2), (3 / 5, 2 / 5), (3 / 5, 2 / 5), (7 / 10, 3 / 10)]
     = [(3 / 5, 2 / 5), (3 / 5, 2 / 5), (7 / 10, 3 / 10)] \<and>
   fst (stdTraj [(3 / 5, 2 / 5), (3 / 5, 2 / 5), (7 / 10, 3 / 10)]) \<noteq> 0 \<and>
   snd (stdTraj [(3 / 5, 2 / 5), (3 / 5, 2 / 5), (7 / 10, 3 / 10)]) \<noteq> 0 \<and>
   np_mean (wtd_evid demo_pdf [(3 / 5, 2 / 5), (3 / 5, 2 / 5), (7 / 10, 3 / 10)]) \<noteq> 0 \<and>
   0 < fst (beta_a [(3 / 5, 2 / 5), (3 / 5, 2 / 5), (7 / 10, 3 / 10)]) \<and>
   0 < snd (beta_a [(3 / 5, 2 / 5), (3 / 5, 2 / 5), (7 / 10, 3 / 10)]) \<and>
   0 < fst (beta_b [(3 / 5, 2 / 5), (3 / 5, 2 / 5), (7 / 10, 3 / 10)]) \<and>
   0 < snd (beta_b [(3 / 5, 2 / 5), (3 / 5, 2 / 5), (7 / 10, 3 / 10)]) \<and>
   p_data demo_pdf [(3 / 5, 2 / 5), (3 / 5, 2 / 5), (7 / 10, 3 / 10)]
     = spec_evidence demo_pdf (\<lambda>p. val (target_rel_prob p))
         [(3 / 5, 2 / 5), (3 / 5, 2 / 5), (7 / 10, 3 / 10)]"
proof -
  have two: "(2::nat) \<le> 4" by simp
  from evidence_estimate[OF rand_ok_demo two, of demo_mvn 0 demo_pdf]
  obtain st where run: "metropolis demo_mvn demo_rand 4 0 = Inr st"
    and rule: "fst (stdTraj (accepted_traj (burn_in 4) (trajectory st))) \<noteq> 0 \<and>
               snd (stdTraj (accepted_traj (burn_in 4) (trajectory st))) \<noteq> 0 \<and>
               np_mean (wtd_evid demo_pdf (accepted_traj (burn_in 4) (trajectory st))) \<noteq> 0 \<longrightarrow>
                 0 < fst (beta_a (accepted_traj (burn_in 4) (trajectory st))) \<and>
                 0 < snd (beta_a (accepted_traj (burn_in 4) (trajectory st))) \<and>
                 0 < fst (beta_b (accepted_traj (burn_in 4) (trajectory st))) \<and>
                 0 < snd (beta_b (accepted_traj (burn_in 4) (trajectory st))) \<and>
                 p_data demo_pdf (accepted_traj (burn_in 4) (trajectory st))
                   = spec_evidence demo_pdf (\<lambda>p. val (target_rel_prob p))
                       (accepted_traj (burn_in 4) (trajectory st))"
    unfolding Let_def by blast
  from run have st: "trajectory st =
      [(1 / 2, 1 / 2), (3 / 5, 2 / 5), (3 / 5, 2 / 5), (7 / 10, 3 / 10)]"
    unfolding demo4_run by auto
  note r = rule[unfolded st demo4_trim]
  from r demo4_std demo4_weights
  have concl: "0 < fst (beta_a [(3 / 5, 2 / 5), (3 / 5, 2 / 5), (7 / 10, 3 / 10)]) \<and>
   0 < snd (beta_a [(3 / 5, 2 / 5), (3 / 5, 2 / 5), (7 / 10, 3 / 10)]) \<and>
   0 < fst (beta_b [(3 / 5, 2 / 5), (3 / 5, 2 / 5), (7 / 10, 3 / 10)]) \<and>
   0 < snd (beta_b [(3 / 5, 2 / 5), (3 / 5, 2 / 5), (7 / 10, 3 / 10)]) \<and>
   p_data demo_pdf [(3 / 5, 2 / 5), (3 / 5, 2 / 5), (7 / 10, 3 / 10)]
     = spec_evidence demo_pdf (\<lambda>p. val (target_rel_prob p))
         [(3 / 5, 2 / 5), (3 / 5, 2 / 5), (7 / 10, 3 / 10)]"
    by blast
  from rand_ok_demo two demo4_run demo4_trim demo4_std demo4_weights concl
  show ?thesis by blast
qed

text \<open>
  C7. For credibility masses \<open>c1 \<le> c2\<close> that \<open>np.percentile\<close> accepts, on the same
  non-empty set of trimmed points, the waterline of \<open>c2\<close> is at least the waterline of
  \<open>c1\<close> and \<open>c2\<close> returns at most as many points as \<open>c1\<close>.
\<close>

theorem hdi_monotone:
  assumes "pts \<noteq> []" and "0 \<le> c1" and "c1 \<le> c2" and "c2 \<le> 100"
  shows "\<exists>w1 w2 h1 h2.
           waterline c1 pts = Inr w1 \<and> waterline c2 pts = Inr w2 \<and> w1 \<le> w2 \<and>
           HDI_points c1 pts = Inr h1 \<and> HDI_points c2 pts = Inr h2 \<and>
           length h2 \<le> length h1"
proof -
  from assms(1) have "post_prob pts \<noteq> []" by (simp add: post_prob_map)
  from np_percentile_mono[OF this assms(2-4)] obtain w1 w2 where
    w1: "waterline c1 pts = Inr w1" and w2: "waterline c2 pts = Inr w2" and le: "w1 \<le> w2"
    by (auto simp: waterline_def)
  have "length (filter (\<lambda>p. w2 < val (target_rel_prob p)) pts)
        \<le> length (filter (\<lambda>p. w1 < val (target_rel_prob p)) pts)"
    using le by (intro filter_length_mono) simp
  with w1 w2 le HDI_points_filter[OF w1] HDI_points_filter[OF w2] show ?thesis by simp
qed

theorem hdi_monotone_witness:
  "demo_pts \<noteq> [] \<and> (0::real) \<le> 1 / 2 \<and> (1 / 2 :: real) \<le> 95 / 100 \<and>
   (95 / 100 :: real) \<le> 100 \<and>
   (\<exists>w1 w2 h1 h2.
      waterline (1 / 2) demo_pts = Inr w1 \<and> waterline (95 / 100) demo_pts = Inr w2 \<and>
      w1 \<le> w2 \<and>
      HDI_points (1 / 2) demo_pts = Inr h1 \<and> HDI_points (95 / 100) demo_pts = Inr h2 \<and>
      length h2 \<le> length h1)"
proof -
  have ne: "demo_pts \<noteq> []" by (simp add: demo_pts_def)
  from hdi_monotone[OF ne, of "1 / 2" "95 / 100"] ne show ?thesis by simp
qed

text \<open>
  C8, as the script has it. For a trajectory of length at least 2 (the script has 5000) the
  burn-in is \<open>ceil(0.1 * traj_length)\<close> and lies below the length; the trimmed trajectory
  is the trajectory without its first \<open>burn_in\<close> rows; its summary statistics are the
  arithmetic mean per column and the population standard deviation per column (the mean
  of the squares minus the square of the mean, divisor \<open>N\<close>).
\<close>

theorem burn_in_trim_summary:
  assumes "2 \<le> traj_length" and "length traj = traj_length"
  shows "burn_in traj_length = nat \<lceil>(1 / 10) * real traj_length\<rceil> \<and>
         burn_in traj_length = (traj_length + 9) div 10 \<and>
         burn_in traj_length < traj_length \<and>
         (let b = burn_in traj_length; pts = accepted_traj b traj; N = real (length pts)
          in pts = drop b traj \<and>
             length pts = traj_length - b \<and>
             (\<forall>i. i < traj_length - b \<longrightarrow> pts ! i = traj ! (b + i)) \<and>
             N * fst (mean_traj pts) = sum_list (map fst pts) \<and>
             N * snd (mean_traj pts) = sum_list (map snd pts) \<and>
             0 \<le> fst (stdTraj pts) \<and> 0 \<le> snd (stdTraj pts) \<and>
             (fst (stdTraj pts))\<^sup>2
               = sum_list (map (\<lambda>p. (fst p)\<^sup>2) pts) / N - (fst (mean_traj pts))\<^sup>2 \<and>
             (snd (stdTraj pts))\<^sup>2
               = sum_list (map (\<lambda>p. (snd p)\<^sup>2) pts) / N - (snd (mean_traj pts))\<^sup>2)"
proof -
  let ?b = "burn_in traj_length"
  let ?pts = "accepted_traj ?b traj"
  have lt: "?b < traj_length" using assms(1) by (rule burn_in_less)
  have len: "length ?pts = traj_length - ?b" by (simp add: accepted_traj_def assms(2))
  with lt have ne: "?pts \<noteq> []" by auto
  then have ne1: "map fst ?pts \<noteq> []" and ne2: "map snd ?pts \<noteq> []" by simp_all
  have nth: "\<forall>i. i < traj_length - ?b \<longrightarrow> ?pts ! i = traj ! (?b + i)"
    using lt by (simp add: accepted_traj_def assms(2))
  have m1: "real (length ?pts) * fst (mean_traj ?pts) = sum_list (map fst ?pts)"
    using np_mean_sum[OF ne1] by (simp add: mean_traj_def)
  have m2: "real (length ?pts) * snd (mean_traj ?pts) = sum_list (map snd ?pts)"
    using np_mean_sum[OF ne2] by (simp add: mean_traj_def)
  have s1: "(fst (stdTraj ?pts))\<^sup>2
        = sum_list (map (\<lambda>p. (fst p)\<^sup>2) ?pts) / real (length ?pts) - (fst (mean_traj ?pts))\<^sup>2"
    using np_std_sq[OF ne1] by (simp add: stdTraj_def mean_traj_def comp_def)
  have s2: "(snd (stdTraj ?pts))\<^sup>2
        = sum_list (map (\<lambda>p. (snd p)\<^sup>2) ?pts) / real (length ?pts) - (snd (mean_traj ?pts))\<^sup>2"
    using np_std_sq[OF ne2] by (simp add: stdTraj_def mean_traj_def comp_def)
  have nn: "0 \<le> fst (stdTraj ?pts)" "0 \<le> snd (stdTraj ?pts)"
    by (simp_all add: stdTraj_def np_std_nonneg)
  have d: "?pts = drop ?b traj" by (simp add: accepted_traj_def)
  show ?thesis
    unfolding Let_def
    using lt len nth m1 m2 s1 s2 nn d burn_in_div[of traj_length] burn_in_def[of traj_length]
    by (intro conjI) assumption+
qed

theorem burn_in_trim_summary_witness:
  "(2::nat) \<le> 3 \<and> length demo_pts = 3 \<and> burn_in 3 = 1 \<and> burn_in 3 < 3 \<and>
   accepted_traj (burn_in 3) demo_pts = [(3 / 5, 2 / 5), (1 / 2, 3 / 10)] \<and>
   accepted_traj (burn_in 3) demo_pts ! 0 = demo_pts ! 1 \<and>
   accepted_traj (burn_in 3) demo_pts ! 1 = demo_pts ! 2 \<and>
   mean_traj (accepted_traj (burn_in 3) demo_pts) = (11 / 20, 7 / 20) \<and>
   (fst (stdTraj (accepted_traj (burn_in 3) demo_pts)))\<^sup>2 = 1 / 400 \<and>
   (snd (stdTraj (accepted_traj (burn_in 3) demo_pts)))\<^sup>2 = 1 / 400"
proof -
  have len: "length demo_pts = 3" by (simp add: demo_pts_def)
  have acc: "accepted_traj (burn_in 3) demo_pts = [(3 / 5, 2 / 5), (1 / 2, 3 / 10)]"
    by (simp add: burn_in_3 accepted_traj_def demo_pts_def)
  have mean: "mean_traj [(3 / 5, 2 / 5), (1 / 2, 3 / 10)] = (11 / 20, 7 / 20)"
    by (simp add: mean_traj_def np_mean_def)
  have two: "(2::nat) \<le> 3" by simp
  note t = burn_in_trim_summary[OF two len, unfolded Let_def]
  have "(fst (stdTraj (accepted_traj (burn_in 3) demo_pts)))\<^sup>2
          = sum_list (map (\<lambda>p. (fst p)\<^sup>2) (accepted_traj (burn_in 3) demo_pts))
              / real (length (accepted_traj (burn_in 3) demo_pts))
            - (fst (mean_traj (accepted_traj (burn_in 3) demo_pts)))\<^sup>2"
    and "(snd (stdTraj (accepted_traj (burn_in 3) demo_pts)))\<^sup>2
          = sum_list (map (\<lambda>p. (snd p)\<^sup>2) (accepted_traj (burn_in 3) demo_pts))
              / real (length (accepted_traj (burn_in 3) demo_pts))
            - (snd (mean_traj (accepted_traj (burn_in 3) demo_pts)))\<^sup>2"
    using t by blast+
  then have "(fst (stdTraj (accepted_traj (burn_in 3) demo_pts)))\<^sup>2 = 1 / 400"
    and "(snd (stdTraj (accepted_traj (burn_in 3) demo_pts)))\<^sup>2 = 1 / 400"
    unfolding acc mean by (simp_all add: power2_eq_square)
  then show ?thesis
    using len acc mean by (simp add: burn_in_3 demo_pts_def)
qed

text \<open>C8 as stated fails. At length 1 the burn-in is \<open>ceil(0.1) = 1\<close>, which is not below the length.\<close>

theorem burn_in_bound_counterexample: "burn_in 1 = 1 \<and> \<not> burn_in 1 < 1"
  by (simp add: burn_in_div)
end
